theory Spec2Isabelle
  imports Main "HOL-Library.Word" "HOL-Library.Multiset"
begin

section \<open>Time, durations and text\<close>

text \<open>
  An instant (Go \<open>time.Time\<close>, \<open>metav1.Time\<close>) is the number of nanoseconds since the Unix
  epoch, in UTC; a \<open>time.Duration\<close> is a number of nanoseconds that fits 64 signed bits.
\<close>

type_synonym time = int
type_synonym duration = int

definition second :: duration where
  "second = 1000000000"

definition minute :: duration where
  "minute = 60 * second"

definition DefaultFailureDeadline :: duration where
  "DefaultFailureDeadline = 5 * minute"

definition minDuration :: duration where
  "minDuration = - (2 ^ 63)"

definition maxDuration :: duration where
  "maxDuration = 2 ^ 63 - 1"

text \<open>\<open>t.Sub(u)\<close>: the difference, saturated at the ends of the 64-bit range.\<close>

definition timeSub :: "time \<Rightarrow> time \<Rightarrow> duration" where
  "timeSub t u =
     (if t - u < minDuration then minDuration
      else if maxDuration < t - u then maxDuration
      else t - u)"

text \<open>Addition of two durations wraps around in 64 bits.\<close>

definition wrap64 :: "int \<Rightarrow> duration" where
  "wrap64 x = (x + 2 ^ 63) mod 2 ^ 64 - 2 ^ 63"

text \<open>The zero \<open>time.Time\<close> is 1 January of year 1, 00:00:00 UTC.\<close>

definition zeroTime :: time where
  "zeroTime = - 62135596800 * second"

definition digitChar :: "nat \<Rightarrow> char" where
  "digitChar d = ''0123456789'' ! (d mod 10)"

fun decimal :: "nat \<Rightarrow> string" where
  "decimal n = (if n < 10 then [digitChar n] else decimal (n div 10) @ [digitChar n])"

declare decimal.simps [simp del]

text \<open>Go's \<open>appendInt\<close>: a sign for a negative number, then at least \<open>width\<close> digits.\<close>

definition appendInt :: "int \<Rightarrow> nat \<Rightarrow> string" where
  "appendInt x width =
     (let ds = decimal (nat \<bar>x\<bar>)
      in (if x < 0 then ''-'' else '''') @ replicate (width - length ds) (CHR ''0'') @ ds)"

text \<open>
  The civil date of a day number (days since 1970-01-01) in the proleptic Gregorian
  calendar, as (year, month, day).
\<close>

definition civilFromDays :: "int \<Rightarrow> int \<times> int \<times> int" where
  "civilFromDays z0 =
     (let z = z0 + 719468;
          era = z div 146097;
          doe = z mod 146097;
          yoe = (doe - doe div 1460 + doe div 36524 - doe div 146096) div 365;
          doy = doe - (365 * yoe + yoe div 4 - yoe div 100);
          mp = (5 * doy + 2) div 153;
          d = doy - (153 * mp + 2) div 5 + 1;
          m = (if mp < 10 then mp + 3 else mp - 9);
          y = yoe + era * 400 + (if m \<le> 2 then 1 else 0)
      in (y, m, d))"

text \<open>\<open>t.UTC().Format("20060102-150405")\<close>.\<close>

definition formatTimestamp :: "time \<Rightarrow> string" where
  "formatTimestamp t =
     (let secs = t div second;
          days = secs div 86400;
          sod = secs mod 86400;
          (y, m, d) = civilFromDays days
      in appendInt y 4 @ appendInt m 2 @ appendInt d 2 @ ''-'' @
         appendInt (sod div 3600) 2 @ appendInt (sod mod 3600 div 60) 2 @ appendInt (sod mod 60) 2)"

text \<open>\<open>strings.Join\<close>.\<close>

fun joinStrings :: "string list \<Rightarrow> string \<Rightarrow> string" where
  "joinStrings [] sep = ''''"
| "joinStrings [x] sep = x"
| "joinStrings (x # y # ys) sep = x @ sep @ joinStrings (y # ys) sep"

section \<open>Errors\<close>

text \<open>
  A Go \<open>error\<close> value: its message, and what \<open>k8serrors.IsAlreadyExists\<close> and
  \<open>k8serrors.IsNotFound\<close> say about it. \<open>nil\<close> is \<open>None\<close> of \<open>goError option\<close>.
\<close>

datatype errKind = KindAlreadyExists | KindNotFound | KindOther

datatype goError = GoError errKind string

fun errorString :: "goError \<Rightarrow> string" where
  "errorString (GoError k m) = m"

fun IsAlreadyExists :: "goError \<Rightarrow> bool" where
  "IsAlreadyExists (GoError k m) = (k = KindAlreadyExists)"

fun IsNotFound :: "goError \<Rightarrow> bool" where
  "IsNotFound (GoError k m) = (k = KindNotFound)"

text \<open>\<open>fmt.Errorf\<close> builds a plain error from the formatted message.\<close>

definition errorf :: "string \<Rightarrow> goError" where
  "errorf m = GoError KindOther m"

text \<open>A panic ends the pass; everything else returns.\<close>

datatype 'a outcome = Panicked string | Returned 'a

section \<open>API objects\<close>

text \<open>A Go \<open>map[string]string\<close>; the nil map is \<open>None\<close>.\<close>

type_synonym stringMap = "(string \<rightharpoonup> string) option"

text \<open>Indexing \<open>m[k]\<close> gives the empty string for a missing key, also on a nil map.\<close>

definition goIndex :: "stringMap \<Rightarrow> string \<Rightarrow> string" where
  "goIndex m k = (case m of None \<Rightarrow> '''' | Some f \<Rightarrow> (case f k of None \<Rightarrow> '''' | Some v \<Rightarrow> v))"

record ownerReference =
  orAPIVersion :: string
  orKind :: string
  orName :: string
  orUID :: string
  orController :: "bool option"

record typedLocalObjectReference =
  refAPIGroup :: "string option"
  refKind :: string
  refName :: string

record objectMeta =
  metaName :: string
  metaNamespace :: string
  metaUID :: string
  metaLabels :: stringMap
  metaAnnotations :: stringMap
  metaOwnerReferences :: "ownerReference list"
  metaCreationTimestamp :: time

record virtualMachineSnapshotSpec =
  snapSource :: typedLocalObjectReference
  snapDeletionPolicy :: "string option"
  snapFailureDeadline :: "duration option"

record virtualMachineSnapshot =
  snapMeta :: objectMeta
  snapSpec :: virtualMachineSnapshotSpec

record virtualMachine =
  vmMeta :: objectMeta

text \<open>A \<open>metav1.LabelSelector\<close>, as data: what it selects is for
  \<open>metav1.LabelSelectorAsSelector\<close> to say.\<close>

record labelSelectorRequirement =
  lsrKey :: string
  lsrOperator :: string
  lsrValues :: "string list"

record labelSelector =
  matchLabels :: stringMap
  matchExpressions :: "labelSelectorRequirement list"

record retentionPolicy =
  retExpires :: "duration option"
  retMaxCount :: "int option"

record snapshotTemplateSpec =
  tmplLabels :: stringMap
  tmplAnnotations :: stringMap
  tmplDeletionPolicy :: "string option"
  tmplFailureDeadline :: "duration option"

record scheduleSpec =
  specSource :: "typedLocalObjectReference option"
  specVMSelector :: "labelSelector option"
  specSchedule :: string
  specDisabled :: bool
  specRetention :: "retentionPolicy option"
  specSnapshotTemplate :: "snapshotTemplateSpec option"
  specFailurePolicy :: "string option"

definition ScheduleFailurePolicyContinue :: string where
  "ScheduleFailurePolicyContinue = ''Continue''"

definition ScheduleFailurePolicyPause :: string where
  "ScheduleFailurePolicyPause = ''Pause''"

definition SchedulePhaseActive :: string where
  "SchedulePhaseActive = ''Active''"

definition SchedulePhasePaused :: string where
  "SchedulePhasePaused = ''Paused''"

definition SchedulePhaseFailed :: string where
  "SchedulePhaseFailed = ''Failed''"

record errorInfo =
  errorTime :: "time option"
  errorMessage :: "string option"

record condition =
  condType :: string
  condStatus :: string
  condLastProbeTime :: time
  condLastTransitionTime :: time
  condReason :: string
  condMessage :: string

record vmSnapshotStatus =
  vssVMName :: string
  vssLastSnapshotName :: string
  vssLastSnapshotTime :: "time option"
  vssCurrentSnapshotCount :: "32 word"
  vssError :: "errorInfo option"

record scheduleStatus =
  stPhase :: string
  stLastSnapshotTime :: "time option"
  stNextSnapshotTime :: "time option"
  stLastSuccessfulSnapshotName :: string
  stCurrentSnapshotCount :: "32 word"
  stError :: "errorInfo option"
  stConditions :: "condition list"
  stVMSnapshotStatuses :: "vmSnapshotStatus list"

text \<open>The zero value \<open>&VirtualMachineSnapshotScheduleStatus{}\<close>.\<close>

definition emptyStatus :: scheduleStatus where
  "emptyStatus =
     \<lparr>stPhase = '''', stLastSnapshotTime = None, stNextSnapshotTime = None,
      stLastSuccessfulSnapshotName = '''', stCurrentSnapshotCount = 0, stError = None,
      stConditions = [], stVMSnapshotStatuses = []\<rparr>"

record snapshotSchedule =
  schMeta :: objectMeta
  schSpec :: scheduleSpec
  schStatus :: "scheduleStatus option"

text \<open>What an informer store holds: an object of one of the three kinds, or something else
  (named by its dynamic type), which every type assertion of the controller rejects.\<close>

datatype storeObj =
    VMObj virtualMachine
  | SnapshotObj virtualMachineSnapshot
  | ScheduleObj snapshotSchedule
  | OtherObj string

fun typeName :: "storeObj \<Rightarrow> string" where
  "typeName (VMObj v) = ''*v1.VirtualMachine''"
| "typeName (SnapshotObj s) = ''*v1beta1.VirtualMachineSnapshot''"
| "typeName (ScheduleObj s) = ''*v1beta1.VirtualMachineSnapshotSchedule''"
| "typeName (OtherObj n) = n"

section \<open>Constants of the controller\<close>

definition scheduleNameLabel :: string where
  "scheduleNameLabel = ''snapshot.kubevirt.io/schedule-name''"

definition scheduleNamespaceLabel :: string where
  "scheduleNamespaceLabel = ''snapshot.kubevirt.io/schedule-namespace''"

definition scheduledSnapshotLabel :: string where
  "scheduledSnapshotLabel = ''snapshot.kubevirt.io/scheduled''"

text \<open>
  Modelled from the spec: \<open>snapshotSourceNameLabel\<close> is declared in a file of the package
  that is not part of the sources at hand; the spec calls the label \<open>source-name\<close>, beside
  \<open>schedule-name\<close>, \<open>schedule-namespace\<close> and \<open>scheduled\<close>. Go rejects a map literal with
  two equal constant keys, so the label differs from the other three.
\<close>

definition snapshotSourceNameLabel :: string where
  "snapshotSourceNameLabel = ''snapshot.kubevirt.io/source-name''"

definition scheduleCreateSnapshotEvent :: string where
  "scheduleCreateSnapshotEvent = ''ScheduledSnapshotCreated''"

definition scheduleDeleteSnapshotEvent :: string where
  "scheduleDeleteSnapshotEvent = ''ScheduledSnapshotDeleted''"

definition scheduleRetentionCleanupEvent :: string where
  "scheduleRetentionCleanupEvent = ''RetentionCleanup''"

definition scheduleFailedEvent :: string where
  "scheduleFailedEvent = ''ScheduledSnapshotFailed''"

definition scheduleInvalidCronEvent :: string where
  "scheduleInvalidCronEvent = ''InvalidCronExpression''"

definition scheduleNoVMsMatchedEvent :: string where
  "scheduleNoVMsMatchedEvent = ''NoVMsMatchedSelector''"

definition EventTypeNormal :: string where
  "EventTypeNormal = ''Normal''"

definition EventTypeWarning :: string where
  "EventTypeWarning = ''Warning''"

text \<open>
  Modelled from the spec: \<open>patch.PatchReplaceOp\<close> belongs to a package that is not part of
  the sources at hand; the spec has the status writer issue a JSON-patch \<open>replace\<close>.
\<close>

definition PatchReplaceOp :: string where
  "PatchReplaceOp = ''replace''"

definition jsonPatchType :: string where
  "jsonPatchType = ''application/json-patch+json''"

section \<open>The world around one reconcile pass\<close>

datatype patchOperation = PatchOperation string string "scheduleStatus option"

text \<open>
  Everything a pass does to the outside, in order: reads of the informer stores, calls of
  the API client with the error they came back with, and events. Log lines are left out.
\<close>

datatype action =
    GetVM string
  | ListVMs
  | ListSnapshots
  | GetSchedule string
  | CreateSnapshot virtualMachineSnapshot "goError option"
  | DeleteSnapshot string string "goError option"
  | PatchSchedule string string string "patchOperation list" "goError option"
  | RecordEvent string string string

record world =
  ticks :: nat
  trace :: "action list"

text \<open>
  What the pass cannot decide itself. \<open>clock\<close> gives the successive readings of
  \<open>time.Now()\<close>; \<open>cronParse\<close> is the cron parser, a parsed schedule being its \<open>Next\<close>
  function; \<open>sortSlice\<close> is \<open>sort.Slice\<close> under the comparison of \<open>applyRetentionForVM\<close>;
  the stores are the informer caches; the API client answers a call knowing what happened
  before it in the pass.
\<close>

record env =
  clock :: "nat \<Rightarrow> time"
  cronParse :: "string \<Rightarrow> goError + (time \<Rightarrow> time)"
  labelSelectorAsSelector :: "labelSelector \<Rightarrow> goError + ((string \<rightharpoonup> string) \<Rightarrow> bool)"
  sortSlice :: "virtualMachineSnapshot list \<Rightarrow> virtualMachineSnapshot list"
  coreGroup :: string
  snapshotGroupVersion :: string
  vmGetByKey :: "string \<Rightarrow> goError + storeObj option"
  vmList :: "storeObj list"
  snapshotList :: "storeObj list"
  scheduleGetByKey :: "string \<Rightarrow> goError + storeObj option"
  createSnapshot :: "action list \<Rightarrow> virtualMachineSnapshot \<Rightarrow> goError option"
  deleteSnapshot :: "action list \<Rightarrow> string \<Rightarrow> string \<Rightarrow> goError option"
  patchSchedule :: "action list \<Rightarrow> string \<Rightarrow> string \<Rightarrow> string \<Rightarrow> patchOperation list \<Rightarrow> goError option"
  generatePatchPayload :: "patchOperation list \<Rightarrow> goError option"

definition emit :: "action \<Rightarrow> world \<Rightarrow> world" where
  "emit a w = w\<lparr>trace := trace w @ [a]\<rparr>"

definition timeNow :: "env \<Rightarrow> world \<Rightarrow> time \<times> world" where
  "timeNow e w = (clock e (ticks w), w\<lparr>ticks := Suc (ticks w)\<rparr>)"

section \<open>The status writer\<close>

text \<open>\<open>metav1.Time.Equal\<close> on two pointers: both nil, or both set to the same instant.\<close>

definition timeEqual :: "time option \<Rightarrow> time option \<Rightarrow> bool" where
  "timeEqual t u =
     (case t of
        None \<Rightarrow> (case u of None \<Rightarrow> True | Some b \<Rightarrow> False)
      | Some a \<Rightarrow> (case u of None \<Rightarrow> False | Some b \<Rightarrow> a = b))"

definition statusEqual :: "scheduleStatus option \<Rightarrow> scheduleStatus option \<Rightarrow> bool" where
  "statusEqual a b =
     (case a of
        None \<Rightarrow> (case b of None \<Rightarrow> True | Some y \<Rightarrow> False)
      | Some x \<Rightarrow>
          (case b of
             None \<Rightarrow> False
           | Some y \<Rightarrow>
               if stPhase x \<noteq> stPhase y then False
               else if stCurrentSnapshotCount x \<noteq> stCurrentSnapshotCount y then False
               else if stLastSuccessfulSnapshotName x \<noteq> stLastSuccessfulSnapshotName y then False
               else if (stLastSnapshotTime x = None) \<noteq> (stLastSnapshotTime y = None) then False
               else if stLastSnapshotTime x \<noteq> None
                       \<and> \<not> timeEqual (stLastSnapshotTime x) (stLastSnapshotTime y) then False
               else if (stNextSnapshotTime x = None) \<noteq> (stNextSnapshotTime y = None) then False
               else if stNextSnapshotTime x \<noteq> None
                       \<and> \<not> timeEqual (stNextSnapshotTime x) (stNextSnapshotTime y) then False
               else True))"

definition scheduleKey :: "snapshotSchedule \<Rightarrow> string" where
  "scheduleKey S = metaNamespace (schMeta S) @ ''/'' @ metaName (schMeta S)"

definition updateScheduleStatus :: "env \<Rightarrow> snapshotSchedule \<Rightarrow> world \<Rightarrow> goError option \<times> world" where
  "updateScheduleStatus e S w =
     (let key = scheduleKey S;
          w1 = emit (GetSchedule key) w
      in case scheduleGetByKey e key of
           Inl err \<Rightarrow> (Some err, w1)
         | Inr None \<Rightarrow> (None, w1)
         | Inr (Some storeObj) \<Rightarrow>
             (case storeObj of
                ScheduleObj current \<Rightarrow>
                  if statusEqual (schStatus current) (schStatus S) then (None, w1)
                  else
                    (let ops = [PatchOperation PatchReplaceOp ''/status'' (schStatus S)]
                     in case generatePatchPayload e ops of
                          Some err \<Rightarrow> (Some err, w1)
                        | None \<Rightarrow>
                            (let r = patchSchedule e (trace w1) (metaNamespace (schMeta S))
                                       (metaName (schMeta S)) jsonPatchType ops
                             in (r, emit (PatchSchedule (metaNamespace (schMeta S))
                                            (metaName (schMeta S)) jsonPatchType ops r) w1)))
              | VMObj x \<Rightarrow> (Some (errorf ''unexpected object type''), w1)
              | SnapshotObj x \<Rightarrow> (Some (errorf ''unexpected object type''), w1)
              | OtherObj x \<Rightarrow> (Some (errorf ''unexpected object type''), w1)))"

section \<open>Selecting snapshots by label\<close>

text \<open>The test of the loop body of \<open>countSnapshotsForSchedule\<close>, on one store object.\<close>

definition countsForSchedule :: "snapshotSchedule \<Rightarrow> storeObj \<Rightarrow> bool" where
  "countsForSchedule S obj =
     (case obj of
        SnapshotObj snapshot \<Rightarrow>
          if metaNamespace (snapMeta snapshot) \<noteq> metaNamespace (schMeta S) then False
          else if metaLabels (snapMeta snapshot) = None then False
          else goIndex (metaLabels (snapMeta snapshot)) scheduleNameLabel = metaName (schMeta S)
      | VMObj x \<Rightarrow> False
      | ScheduleObj x \<Rightarrow> False
      | OtherObj x \<Rightarrow> False)"

fun countLoop :: "snapshotSchedule \<Rightarrow> storeObj list \<Rightarrow> 32 word \<Rightarrow> 32 word" where
  "countLoop S [] n = n"
| "countLoop S (obj # objs) n =
     countLoop S objs (if countsForSchedule S obj then n + 1 else n)"

text \<open>The error result of the source function is always nil, so it is left out.\<close>

definition countSnapshotsForSchedule :: "env \<Rightarrow> snapshotSchedule \<Rightarrow> world \<Rightarrow> 32 word \<times> world" where
  "countSnapshotsForSchedule e S w = (countLoop S (snapshotList e) 0, emit ListSnapshots w)"

text \<open>The test of the loop body of \<open>getScheduledSnapshotsForVM\<close>, on one snapshot.\<close>

definition belongsToScheduleVM :: "snapshotSchedule \<Rightarrow> virtualMachine \<Rightarrow> virtualMachineSnapshot \<Rightarrow> bool" where
  "belongsToScheduleVM S vm snapshot =
     (if metaNamespace (snapMeta snapshot) \<noteq> metaNamespace (schMeta S) then False
      else if metaLabels (snapMeta snapshot) = None then False
      else if goIndex (metaLabels (snapMeta snapshot)) scheduleNameLabel \<noteq> metaName (schMeta S) then False
      else if goIndex (metaLabels (snapMeta snapshot)) snapshotSourceNameLabel \<noteq> metaName (vmMeta vm) then False
      else True)"

fun selectSnapshots :: "snapshotSchedule \<Rightarrow> virtualMachine \<Rightarrow> storeObj list \<Rightarrow> virtualMachineSnapshot list" where
  "selectSnapshots S vm [] = []"
| "selectSnapshots S vm (obj # objs) =
     (case obj of
        SnapshotObj snapshot \<Rightarrow>
          if belongsToScheduleVM S vm snapshot then snapshot # selectSnapshots S vm objs
          else selectSnapshots S vm objs
      | VMObj x \<Rightarrow> selectSnapshots S vm objs
      | ScheduleObj x \<Rightarrow> selectSnapshots S vm objs
      | OtherObj x \<Rightarrow> selectSnapshots S vm objs)"

text \<open>The error result of the source function is always nil, so it is left out.\<close>

definition getScheduledSnapshotsForVM ::
  "env \<Rightarrow> snapshotSchedule \<Rightarrow> virtualMachine \<Rightarrow> world \<Rightarrow> virtualMachineSnapshot list \<times> world" where
  "getScheduledSnapshotsForVM e S vm w = (selectSnapshots S vm (snapshotList e), emit ListSnapshots w)"

section \<open>Resolving the target machines\<close>

definition labelsSet :: "stringMap \<Rightarrow> (string \<rightharpoonup> string)" where
  "labelsSet m = (case m of None \<Rightarrow> Map.empty | Some f \<Rightarrow> f)"

fun selectVMs :: "((string \<rightharpoonup> string) \<Rightarrow> bool) \<Rightarrow> string \<Rightarrow> storeObj list \<Rightarrow> virtualMachine list" where
  "selectVMs selector ns [] = []"
| "selectVMs selector ns (obj # objs) =
     (case obj of
        VMObj vm \<Rightarrow>
          if metaNamespace (vmMeta vm) \<noteq> ns then selectVMs selector ns objs
          else if selector (labelsSet (metaLabels (vmMeta vm))) then vm # selectVMs selector ns objs
          else selectVMs selector ns objs
      | SnapshotObj x \<Rightarrow> selectVMs selector ns objs
      | ScheduleObj x \<Rightarrow> selectVMs selector ns objs
      | OtherObj x \<Rightarrow> selectVMs selector ns objs)"

definition getVMsToSnapshot ::
  "env \<Rightarrow> snapshotSchedule \<Rightarrow> world \<Rightarrow> (goError + virtualMachine list) \<times> world" where
  "getVMsToSnapshot e S w =
     (case specSource (schSpec S) of
        Some src \<Rightarrow>
          if refKind src \<noteq> ''VirtualMachine''
          then (Inl (errorf (''source kind must be VirtualMachine, got '' @ refKind src)), w)
          else
            (let key = metaNamespace (schMeta S) @ ''/'' @ refName src;
                 w1 = emit (GetVM key) w
             in case vmGetByKey e key of
                  Inl err \<Rightarrow> (Inl err, w1)
                | Inr None \<Rightarrow> (Inl (errorf (''VirtualMachine '' @ key @ '' not found'')), w1)
                | Inr (Some obj) \<Rightarrow>
                    (case obj of
                       VMObj vm \<Rightarrow> (Inr [vm], w1)
                     | SnapshotObj x \<Rightarrow> (Inl (errorf (''unexpected object type: '' @ typeName obj)), w1)
                     | ScheduleObj x \<Rightarrow> (Inl (errorf (''unexpected object type: '' @ typeName obj)), w1)
                     | OtherObj x \<Rightarrow> (Inl (errorf (''unexpected object type: '' @ typeName obj)), w1)))
      | None \<Rightarrow>
          (case specVMSelector (schSpec S) of
             Some sel \<Rightarrow>
               (case labelSelectorAsSelector e sel of
                  Inl err \<Rightarrow> (Inl (errorf (''invalid vmSelector: '' @ errorString err)), w)
                | Inr selector \<Rightarrow>
                    (Inr (selectVMs selector (metaNamespace (schMeta S)) (vmList e)), emit ListVMs w))
           | None \<Rightarrow> (Inl (errorf ''either source or vmSelector must be specified''), w)))"

section \<open>Creating snapshots\<close>

text \<open>The object that \<open>createSnapshotForVM\<close> builds when the clock reads \<open>t\<close>.\<close>

definition buildSnapshot ::
  "env \<Rightarrow> snapshotSchedule \<Rightarrow> virtualMachine \<Rightarrow> time \<Rightarrow> virtualMachineSnapshot" where
  "buildSnapshot e S vm t =
     (let timestamp = formatTimestamp t;
          snapshotName = metaName (schMeta S) @ ''-'' @ metaName (vmMeta vm) @ ''-'' @ timestamp;
          snapshotLabels0 =
            [scheduleNameLabel \<mapsto> metaName (schMeta S),
             scheduleNamespaceLabel \<mapsto> metaNamespace (schMeta S),
             scheduledSnapshotLabel \<mapsto> ''true'',
             snapshotSourceNameLabel \<mapsto> metaName (vmMeta vm)];
          snapshotLabels =
            (case specSnapshotTemplate (schSpec S) of
               None \<Rightarrow> snapshotLabels0
             | Some tmpl \<Rightarrow>
                 (case tmplLabels tmpl of
                    None \<Rightarrow> snapshotLabels0
                  | Some ls \<Rightarrow> snapshotLabels0 ++ ls));
          snapshotAnnotations =
            (case specSnapshotTemplate (schSpec S) of
               None \<Rightarrow> None
             | Some tmpl \<Rightarrow>
                 (case tmplAnnotations tmpl of
                    None \<Rightarrow> None
                  | Some as \<Rightarrow> Some (Map.empty ++ as)));
          snapshot0 =
            \<lparr>snapMeta =
               \<lparr>metaName = snapshotName,
                metaNamespace = metaNamespace (schMeta S),
                metaUID = [],
                metaLabels = Some snapshotLabels,
                metaAnnotations = snapshotAnnotations,
                metaOwnerReferences =
                  [\<lparr>orAPIVersion = snapshotGroupVersion e,
                    orKind = ''VirtualMachineSnapshotSchedule'',
                    orName = metaName (schMeta S),
                    orUID = metaUID (schMeta S),
                    orController = Some True\<rparr>],
                metaCreationTimestamp = zeroTime\<rparr>,
             snapSpec =
               \<lparr>snapSource =
                  \<lparr>refAPIGroup = Some (coreGroup e),
                   refKind = ''VirtualMachine'',
                   refName = metaName (vmMeta vm)\<rparr>,
                snapDeletionPolicy = None,
                snapFailureDeadline = None\<rparr>\<rparr>
      in case specSnapshotTemplate (schSpec S) of
           None \<Rightarrow> snapshot0
         | Some tmpl \<Rightarrow>
             (let s1 = (case tmplDeletionPolicy tmpl of
                          None \<Rightarrow> snapshot0
                        | Some dp \<Rightarrow>
                            snapshot0\<lparr>snapSpec := (snapSpec snapshot0)\<lparr>snapDeletionPolicy := Some dp\<rparr>\<rparr>)
              in case tmplFailureDeadline tmpl of
                   None \<Rightarrow> s1
                 | Some fd \<Rightarrow> s1\<lparr>snapSpec := (snapSpec s1)\<lparr>snapFailureDeadline := Some fd\<rparr>\<rparr>))"

definition createSnapshotForVM ::
  "env \<Rightarrow> snapshotSchedule \<Rightarrow> virtualMachine \<Rightarrow> world \<Rightarrow> goError option \<times> world" where
  "createSnapshotForVM e S vm w =
     (let (t, w1) = timeNow e w;
          snapshot = buildSnapshot e S vm t;
          err = createSnapshot e (trace w1) snapshot;
          w2 = emit (CreateSnapshot snapshot err) w1
      in case err of
           Some x \<Rightarrow> if IsAlreadyExists x then (None, w2) else (Some x, w2)
         | None \<Rightarrow>
             (None, emit (RecordEvent EventTypeNormal scheduleCreateSnapshotEvent
                            (''Created snapshot '' @ metaName (snapMeta snapshot) @ '' for VM ''
                               @ metaName (vmMeta vm))) w2))"

fun createLoop ::
  "env \<Rightarrow> snapshotSchedule \<Rightarrow> virtualMachine list \<Rightarrow> string list \<Rightarrow> world \<Rightarrow> string list \<times> world" where
  "createLoop e S [] errs w = (errs, w)"
| "createLoop e S (vm # vms) errs w =
     (let (err, w1) = createSnapshotForVM e S vm w
      in createLoop e S vms
           (case err of
              None \<Rightarrow> errs
            | Some x \<Rightarrow> errs @ [''VM '' @ metaName (vmMeta vm) @ '': '' @ errorString x])
           w1)"

definition createScheduledSnapshots ::
  "env \<Rightarrow> snapshotSchedule \<Rightarrow> virtualMachine list \<Rightarrow> world \<Rightarrow> goError option \<times> world" where
  "createScheduledSnapshots e S vms w =
     (let (errs, w1) = createLoop e S vms [] w
      in if length errs > 0
         then (Some (errorf (''failed to create snapshots: '' @ joinStrings errs ''; '')), w1)
         else (None, w1))"

section \<open>Retention\<close>

text \<open>The comparison handed to \<open>sort.Slice\<close>: \<open>CreationTimestamp.Before\<close>.\<close>

definition creationBefore :: "virtualMachineSnapshot \<Rightarrow> virtualMachineSnapshot \<Rightarrow> bool" where
  "creationBefore a b = (metaCreationTimestamp (snapMeta a) < metaCreationTimestamp (snapMeta b))"

text \<open>
  On a slice of at most twelve elements \<open>sort.Slice\<close> runs an insertion sort: each element
  in turn moves left while it is less than its left neighbour. The sorted prefix is held
  reversed, its last element first.
\<close>

fun insertLess :: "('a \<Rightarrow> 'a \<Rightarrow> bool) \<Rightarrow> 'a \<Rightarrow> 'a list \<Rightarrow> 'a list" where
  "insertLess lt x [] = [x]"
| "insertLess lt x (y # ys) = (if lt x y then y # insertLess lt x ys else x # y # ys)"

definition insertionSortLess :: "('a \<Rightarrow> 'a \<Rightarrow> bool) \<Rightarrow> 'a list \<Rightarrow> 'a list" where
  "insertionSortLess lt xs = rev (foldl (\<lambda>pre x. insertLess lt x pre) [] xs)"

text \<open>The inner loops that look for a snapshot of the same name in \<open>snapshotsToDelete\<close>.\<close>

definition containsName :: "virtualMachineSnapshot list \<Rightarrow> virtualMachineSnapshot \<Rightarrow> bool" where
  "containsName ds s = (metaName (snapMeta s) \<in> set (map (\<lambda>d. metaName (snapMeta d)) ds))"

fun appendMissing ::
  "virtualMachineSnapshot list \<Rightarrow> virtualMachineSnapshot list \<Rightarrow> virtualMachineSnapshot list" where
  "appendMissing [] ds = ds"
| "appendMissing (s # ss) ds = appendMissing ss (if containsName ds s then ds else ds @ [s])"

text \<open>
  The list \<open>snapshotsToDelete\<close> that \<open>applyRetentionForVM\<close> has built from the sorted
  snapshots when it reaches its delete loop. With a negative \<open>maxCount\<close> the slice expression
  \<open>remaining[:len(remaining)-maxCount]\<close> reaches past the length of \<open>remaining\<close>: it panics
  at once when it also reaches past the capacity, and otherwise takes in nil entries, on
  which the name comparison of the following loop panics; no delete call comes before.
\<close>

definition snapshotsToDelete ::
  "retentionPolicy \<Rightarrow> time \<Rightarrow> virtualMachineSnapshot list \<Rightarrow> virtualMachineSnapshot list outcome" where
  "snapshotsToDelete r now snapshots =
     (let expired =
            (case retExpires r of
               None \<Rightarrow> []
             | Some expireDuration \<Rightarrow>
                 filter (\<lambda>snapshot. timeSub now (metaCreationTimestamp (snapMeta snapshot)) > expireDuration)
                   snapshots)
      in case retMaxCount r of
           None \<Rightarrow> Returned expired
         | Some maxCount \<Rightarrow>
             (let remaining = filter (\<lambda>s. \<not> containsName expired s) snapshots
              in if int (length remaining) > maxCount
                 then (if maxCount < 0 then Panicked ''runtime error''
                       else Returned (appendMissing (take (length remaining - nat maxCount) remaining) expired))
                 else Returned expired))"

fun deleteLoop :: "env \<Rightarrow> virtualMachineSnapshot list \<Rightarrow> world \<Rightarrow> world" where
  "deleteLoop e [] w = w"
| "deleteLoop e (snapshot # rest) w =
     (let err = deleteSnapshot e (trace w) (metaNamespace (snapMeta snapshot)) (metaName (snapMeta snapshot));
          w1 = emit (DeleteSnapshot (metaNamespace (snapMeta snapshot)) (metaName (snapMeta snapshot)) err) w;
          ev = RecordEvent EventTypeNormal scheduleDeleteSnapshotEvent
                 (''Deleted snapshot '' @ metaName (snapMeta snapshot) @ '' due to retention policy'')
      in case err of
           None \<Rightarrow> deleteLoop e rest (emit ev w1)
         | Some x \<Rightarrow> if \<not> IsNotFound x then deleteLoop e rest w1 else deleteLoop e rest (emit ev w1))"

definition applyRetentionForVM ::
  "env \<Rightarrow> snapshotSchedule \<Rightarrow> virtualMachine \<Rightarrow> world \<Rightarrow> goError option outcome \<times> world" where
  "applyRetentionForVM e S vm w =
     (let (snapshots0, w1) = getScheduledSnapshotsForVM e S vm w
      in if length snapshots0 = 0 then (Returned None, w1)
         else
           (let snapshots = sortSlice e snapshots0;
                (now, w2) = timeNow e w1
            in case specRetention (schSpec S) of
                 None \<Rightarrow> (Panicked ''nil pointer dereference'', w2)
               | Some r \<Rightarrow>
                   (case snapshotsToDelete r now snapshots of
                      Panicked m \<Rightarrow> (Panicked m, w2)
                    | Returned ds \<Rightarrow> (Returned None, deleteLoop e ds w2))))"

fun retentionLoop ::
  "env \<Rightarrow> snapshotSchedule \<Rightarrow> virtualMachine list \<Rightarrow> world \<Rightarrow> unit outcome \<times> world" where
  "retentionLoop e S [] w = (Returned (), w)"
| "retentionLoop e S (vm # vms) w =
     (case applyRetentionForVM e S vm w of
        (Panicked m, w1) \<Rightarrow> (Panicked m, w1)
      | (Returned err, w1) \<Rightarrow> retentionLoop e S vms w1)"

definition applyRetentionPolicy ::
  "env \<Rightarrow> snapshotSchedule \<Rightarrow> virtualMachine list \<Rightarrow> world \<Rightarrow> goError option outcome \<times> world" where
  "applyRetentionPolicy e S vms w =
     (case specRetention (schSpec S) of
        None \<Rightarrow> (Returned None, w)
      | Some r \<Rightarrow>
          (case retentionLoop e S vms w of
             (Panicked m, w1) \<Rightarrow> (Panicked m, w1)
           | (Returned u, w1) \<Rightarrow> (Returned None, w1)))"

section \<open>The reconciler\<close>

text \<open>
  A reconciler function returns its pair of requeue delay and error, unless it panics,
  together with the schedule as it has changed it (the pass works on a deep copy) and
  the world.
\<close>

type_synonym reconcileResult = "(duration \<times> goError option) outcome \<times> snapshotSchedule \<times> world"

definition updateScheduleStatusError ::
  "env \<Rightarrow> snapshotSchedule \<Rightarrow> goError \<Rightarrow> world \<Rightarrow> reconcileResult" where
  "updateScheduleStatusError e S err w =
     (case schStatus S of
        None \<Rightarrow> (Panicked ''nil pointer dereference'', S, w)
      | Some st \<Rightarrow>
          (let (now, w1) = timeNow e w;
               errMsg = errorString err;
               S1 = S\<lparr>schStatus := Some (st\<lparr>stPhase := SchedulePhaseFailed,
                                             stError := Some \<lparr>errorTime = Some now, errorMessage = Some errMsg\<rparr>\<rparr>)\<rparr>;
               (updateErr, w2) = updateScheduleStatus e S1 w1
           in case updateErr of
                Some x \<Rightarrow> (Returned (0, Some x), S1, w2)
              | None \<Rightarrow>
                  (Returned (0, Some err), S1,
                   emit (RecordEvent EventTypeWarning scheduleFailedEvent
                           (''Schedule failed: '' @ errorString err)) w2)))"

definition updateScheduleStatusPaused :: "env \<Rightarrow> snapshotSchedule \<Rightarrow> world \<Rightarrow> reconcileResult" where
  "updateScheduleStatusPaused e S w =
     (case schStatus S of
        None \<Rightarrow> (Panicked ''nil pointer dereference'', S, w)
      | Some st \<Rightarrow>
          (let S1 = S\<lparr>schStatus := Some (st\<lparr>stPhase := SchedulePhasePaused, stError := None\<rparr>)\<rparr>;
               (err, w1) = updateScheduleStatus e S1 w
           in case err of
                Some x \<Rightarrow> (Returned (0, Some x), S1, w1)
              | None \<Rightarrow> (Returned (0, None), S1, w1)))"

definition updateScheduleStatusActive ::
  "env \<Rightarrow> snapshotSchedule \<Rightarrow> (time \<Rightarrow> time) \<Rightarrow> world \<Rightarrow> reconcileResult" where
  "updateScheduleStatusActive e S cronSchedule w =
     (case schStatus S of
        None \<Rightarrow> (Panicked ''nil pointer dereference'', S, w)
      | Some st \<Rightarrow>
          (let (fromTime, w1) =
                 (case stLastSnapshotTime st of
                    Some t \<Rightarrow> (t, w)
                  | None \<Rightarrow> timeNow e w);
               nextRun = cronSchedule fromTime;
               S1 = S\<lparr>schStatus := Some (st\<lparr>stPhase := SchedulePhaseActive, stError := None,
                                             stNextSnapshotTime := Some nextRun\<rparr>)\<rparr>;
               (n, w2) = countSnapshotsForSchedule e S1 w1;
               S2 = S\<lparr>schStatus := Some (st\<lparr>stPhase := SchedulePhaseActive, stError := None,
                                             stNextSnapshotTime := Some nextRun,
                                             stCurrentSnapshotCount := n\<rparr>)\<rparr>;
               (err, w3) = updateScheduleStatus e S2 w2
           in case err of
                Some x \<Rightarrow> (Returned (0, Some x), S2, w3)
              | None \<Rightarrow>
                  (let (now, w4) = timeNow e w3;
                       requeueAfter = wrap64 (timeSub nextRun now + second)
                   in (Returned (if requeueAfter < second then second else requeueAfter, None), S2, w4))))"

text \<open>The end of \<open>updateVMSnapshotSchedule\<close>: retention, then the status of an active schedule.\<close>

definition retainAndReport ::
  "env \<Rightarrow> snapshotSchedule \<Rightarrow> virtualMachine list \<Rightarrow> (time \<Rightarrow> time) \<Rightarrow> world \<Rightarrow> reconcileResult" where
  "retainAndReport e S vms cronSchedule w =
     (case applyRetentionPolicy e S vms w of
        (Panicked m, w1) \<Rightarrow> (Panicked m, S, w1)
      | (Returned err, w1) \<Rightarrow> updateScheduleStatusActive e S cronSchedule w1)"

definition updateVMSnapshotSchedule :: "env \<Rightarrow> snapshotSchedule \<Rightarrow> world \<Rightarrow> reconcileResult" where
  "updateVMSnapshotSchedule e S w =
     (let st0 = (case schStatus S of None \<Rightarrow> emptyStatus | Some st \<Rightarrow> st);
          S0 = S\<lparr>schStatus := Some st0\<rparr>
      in case cronParse e (specSchedule (schSpec S0)) of
           Inl err \<Rightarrow>
             updateScheduleStatusError e S0 (errorf (''invalid cron expression: '' @ errorString err)) w
         | Inr cronSchedule \<Rightarrow>
             if specDisabled (schSpec S0) then updateScheduleStatusPaused e S0 w
             else
               (case getVMsToSnapshot e S0 w of
                  (Inl err, w1) \<Rightarrow> updateScheduleStatusError e S0 err w1
                | (Inr vms, w1) \<Rightarrow>
                    if length vms = 0
                    then updateScheduleStatusActive e S0 cronSchedule
                           (emit (RecordEvent EventTypeWarning scheduleNoVMsMatchedEvent
                                    ''No VirtualMachines matched the selector'') w1)
                    else
                      (let (now, w2) = timeNow e w1;
                           nextRun =
                             (case stLastSnapshotTime st0 of
                                Some t \<Rightarrow> cronSchedule t
                              | None \<Rightarrow> cronSchedule (now - second))
                       in if nextRun < now \<or> now = nextRun
                          then
                            (let (err, w3) = createScheduledSnapshots e S0 vms w2;
                                 S1 = S0\<lparr>schStatus := Some (st0\<lparr>stLastSnapshotTime := Some now\<rparr>)\<rparr>
                             in case err of
                                  Some x \<Rightarrow>
                                    if specFailurePolicy (schSpec S0) = Some ScheduleFailurePolicyPause
                                    then updateScheduleStatusError e S0 x w3
                                    else retainAndReport e S1 vms cronSchedule
                                           (emit (RecordEvent EventTypeWarning scheduleFailedEvent
                                                    (''Failed to create snapshot: '' @ errorString x)) w3)
                                | None \<Rightarrow> retainAndReport e S1 vms cronSchedule w3)
                          else retainAndReport e S0 vms cronSchedule w2)))"

section \<open>Reading a trace\<close>

text \<open>What a pass has added to the trace of the world it started in.\<close>

definition newActions :: "world \<Rightarrow> world \<Rightarrow> action list" where
  "newActions w w' = drop (length (trace w)) (trace w')"

definition createdBy :: "action \<Rightarrow> virtualMachineSnapshot list" where
  "createdBy a = (case a of CreateSnapshot s r \<Rightarrow> [s] | _ \<Rightarrow> [])"

text \<open>The snapshots handed to the create call of the API client, in order.\<close>

definition createdSnapshots :: "action list \<Rightarrow> virtualMachineSnapshot list" where
  "createdSnapshots as = concat (map createdBy as)"

definition deletedBy :: "action \<Rightarrow> (string \<times> string) list" where
  "deletedBy a = (case a of DeleteSnapshot ns n r \<Rightarrow> [(ns, n)] | _ \<Rightarrow> [])"

text \<open>The (namespace, name) pairs handed to the delete call of the API client, in order.\<close>

definition deleteCalls :: "action list \<Rightarrow> (string \<times> string) list" where
  "deleteCalls as = concat (map deletedBy as)"

definition isVMLookup :: "action \<Rightarrow> bool" where
  "isVMLookup a = (case a of GetVM k \<Rightarrow> True | ListVMs \<Rightarrow> True | _ \<Rightarrow> False)"

definition isPatch :: "action \<Rightarrow> bool" where
  "isPatch a = (case a of PatchSchedule ns n t ops r \<Rightarrow> True | _ \<Rightarrow> False)"

definition eventReasonOf :: "action \<Rightarrow> string list" where
  "eventReasonOf a = (case a of RecordEvent t r m \<Rightarrow> [r] | _ \<Rightarrow> [])"

text \<open>The reasons of the events recorded, in order.\<close>

definition eventReasons :: "action list \<Rightarrow> string list" where
  "eventReasons as = concat (map eventReasonOf as)"

definition failureLineOf :: "action \<Rightarrow> string list" where
  "failureLineOf a =
     (case a of
        CreateSnapshot s r \<Rightarrow>
          (case r of
             None \<Rightarrow> []
           | Some x \<Rightarrow>
               if IsAlreadyExists x then []
               else [''VM '' @ refName (snapSource (snapSpec s)) @ '': '' @ errorString x])
      | _ \<Rightarrow> [])"

text \<open>One line for each create call that came back with an error other than AlreadyExists:
  the machine the snapshot was for, and the message of the error.\<close>

definition failureLines :: "action list \<Rightarrow> string list" where
  "failureLines as = concat (map failureLineOf as)"

text \<open>What \<open>sort.Slice\<close> promises of its result under \<open>creationBefore\<close>: a rearrangement
  of the input in which no element is before an earlier one.\<close>

definition sortsByCreation ::
  "(virtualMachineSnapshot list \<Rightarrow> virtualMachineSnapshot list) \<Rightarrow> bool" where
  "sortsByCreation srt =
     (\<forall>xs. mset (srt xs) = mset xs \<and> sorted_wrt (\<lambda>a b. \<not> creationBefore b a) (srt xs))"

definition snapshotsOf :: "storeObj list \<Rightarrow> virtualMachineSnapshot list" where
  "snapshotsOf objs = concat (map (\<lambda>obj. case obj of SnapshotObj s \<Rightarrow> [s] | _ \<Rightarrow> []) objs)"

text \<open>An informer store holds one object for each key \<open>namespace/name\<close>.\<close>

definition storeKeysUnique :: "storeObj list \<Rightarrow> bool" where
  "storeKeysUnique objs =
     distinct (map (\<lambda>s. (metaNamespace (snapMeta s), metaName (snapMeta s))) (snapshotsOf objs))"

section \<open>A small cluster for the examples\<close>

definition emptyMeta :: objectMeta where
  "emptyMeta =
     \<lparr>metaName = [], metaNamespace = [], metaUID = [], metaLabels = None, metaAnnotations = None,
      metaOwnerReferences = [], metaCreationTimestamp = zeroTime\<rparr>"

definition exVM :: virtualMachine where
  "exVM = \<lparr>vmMeta = emptyMeta\<lparr>metaName := ''vmA'', metaNamespace := ''default''\<rparr>\<rparr>"

definition exVMB :: virtualMachine where
  "exVMB = \<lparr>vmMeta = emptyMeta\<lparr>metaName := ''vmB'', metaNamespace := ''default''\<rparr>\<rparr>"

definition exSpec :: scheduleSpec where
  "exSpec =
     \<lparr>specSource = Some \<lparr>refAPIGroup = None, refKind = ''VirtualMachine'', refName = ''vmA''\<rparr>,
      specVMSelector = None,
      specSchedule = ''* * * * *'',
      specDisabled = False,
      specRetention = None,
      specSnapshotTemplate = None,
      specFailurePolicy = None\<rparr>"

definition exSchedule :: snapshotSchedule where
  "exSchedule =
     \<lparr>schMeta = emptyMeta\<lparr>metaName := ''s1'', metaNamespace := ''default'', metaUID := ''uid-1''\<rparr>,
      schSpec = exSpec,
      schStatus = None\<rparr>"

text \<open>The \<open>Next\<close> function of the cron schedule \<open>* * * * *\<close>: the next full minute.\<close>

definition everyMinute :: "time \<Rightarrow> time" where
  "everyMinute t = (t div minute + 1) * minute"

text \<open>2024-01-01 00:00:30 UTC.\<close>

definition exNow :: time where
  "exNow = 1704067230 * second"

definition exEnv :: env where
  "exEnv =
     \<lparr>clock = (\<lambda>n. exNow),
      cronParse = (\<lambda>s. if s = ''* * * * *'' then Inr everyMinute
                        else Inl (GoError KindOther ''expected exactly 5 fields'')),
      labelSelectorAsSelector = (\<lambda>sel. Inl (GoError KindOther ''invalid selector'')),
      sortSlice = insertionSortLess creationBefore,
      coreGroup = ''kubevirt.io'',
      snapshotGroupVersion = ''snapshot.kubevirt.io/v1beta1'',
      vmGetByKey = (\<lambda>k. if k = ''default/vmA'' then Inr (Some (VMObj exVM)) else Inr None),
      vmList = [VMObj exVM, VMObj exVMB],
      snapshotList = [],
      scheduleGetByKey = (\<lambda>k. if k = ''default/s1'' then Inr (Some (ScheduleObj exSchedule)) else Inr None),
      createSnapshot = (\<lambda>tr s. None),
      deleteSnapshot = (\<lambda>tr ns n. None),
      patchSchedule = (\<lambda>tr ns n t ops. None),
      generatePatchPayload = (\<lambda>ops. None)\<rparr>"

definition w0 :: world where
  "w0 = \<lparr>ticks = 0, trace = []\<rparr>"

text \<open>A stored schedule and a candidate that differ in the per-VM sub-status list only.\<close>

definition exStoredActive :: snapshotSchedule where
  "exStoredActive = exSchedule\<lparr>schStatus := Some (emptyStatus\<lparr>stPhase := ''Active''\<rparr>)\<rparr>"

definition exCandidatePerVM :: snapshotSchedule where
  "exCandidatePerVM =
     exSchedule\<lparr>schStatus := Some (emptyStatus
       \<lparr>stPhase := ''Active'',
        stVMSnapshotStatuses :=
          [\<lparr>vssVMName = ''vmA'', vssLastSnapshotName = ''s1-vmA-20240101-000030'',
            vssLastSnapshotTime = None, vssCurrentSnapshotCount = 1, vssError = None\<rparr>]\<rparr>)\<rparr>"

definition exCandidatePaused :: snapshotSchedule where
  "exCandidatePaused = exSchedule\<lparr>schStatus := Some (emptyStatus\<lparr>stPhase := ''Paused''\<rparr>)\<rparr>"

definition exEnvStored :: env where
  "exEnvStored =
     exEnv\<lparr>scheduleGetByKey :=
       (\<lambda>k. if k = ''default/s1'' then Inr (Some (ScheduleObj exStoredActive)) else Inr None)\<rparr>"

text \<open>A snapshot that somebody else made: it carries the two labels, no owner reference
  and no \<open>scheduled\<close> label.\<close>

definition exForeignSnapshot :: virtualMachineSnapshot where
  "exForeignSnapshot =
     \<lparr>snapMeta = emptyMeta
        \<lparr>metaName := ''manual'', metaNamespace := ''default'',
         metaLabels := Some [scheduleNameLabel \<mapsto> ''s1'', snapshotSourceNameLabel \<mapsto> ''vmA'']\<rparr>,
      snapSpec =
        \<lparr>snapSource = \<lparr>refAPIGroup = None, refKind = ''VirtualMachine'', refName = ''vmA''\<rparr>,
         snapDeletionPolicy = None, snapFailureDeadline = None\<rparr>\<rparr>"

definition exEnvForeign :: env where
  "exEnvForeign = exEnv\<lparr>snapshotList := [SnapshotObj exForeignSnapshot]\<rparr>"


text \<open>The second world continues the first: its trace is the first one's, followed by
  actions of which \<open>Q\<close> holds.\<close>

definition grows :: "(action list \<Rightarrow> bool) \<Rightarrow> world \<Rightarrow> world \<Rightarrow> bool" where
  "grows Q w w' = (\<exists>ys. trace w' = trace w @ ys \<and> Q ys)"

text \<open>No call that creates or deletes a snapshot, and no lookup of a machine.\<close>

definition statusOnly :: "action list \<Rightarrow> bool" where
  "statusOnly ys = (createdSnapshots ys = [] \<and> deleteCalls ys = [] \<and> filter isVMLookup ys = [])"

definition noCreate :: "action list \<Rightarrow> bool" where
  "noCreate ys = (createdSnapshots ys = [])"

definition exDisabled :: snapshotSchedule where
  "exDisabled = exSchedule\<lparr>schSpec := exSpec\<lparr>specDisabled := True\<rparr>\<rparr>"

text \<open>An API server that refuses every status patch.\<close>

definition exEnvPatchFails :: env where
  "exEnvPatchFails =
     exEnvStored\<lparr>patchSchedule := (\<lambda>tr ns n t ops. Some (GoError KindOther ''conflict''))\<rparr>"

text \<open>The status with which a pass leaves a schedule that it found disabled.\<close>

definition pausedStatus :: "snapshotSchedule \<Rightarrow> scheduleStatus" where
  "pausedStatus S =
     (case schStatus S of None \<Rightarrow> emptyStatus | Some st \<Rightarrow> st)
       \<lparr>stPhase := SchedulePhasePaused, stError := None\<rparr>"

definition exBadCron :: snapshotSchedule where
  "exBadCron = exSchedule\<lparr>schSpec := exSpec\<lparr>specSchedule := ''not a cron''\<rparr>\<rparr>"

text \<open>The status with which a pass leaves a schedule on the error \<open>err\<close>, noticed at \<open>t\<close>.\<close>

definition failedStatus :: "snapshotSchedule \<Rightarrow> goError \<Rightarrow> time \<Rightarrow> scheduleStatus" where
  "failedStatus S err t =
     (case schStatus S of None \<Rightarrow> emptyStatus | Some st \<Rightarrow> st)
       \<lparr>stPhase := SchedulePhaseFailed,
        stError := Some \<lparr>errorTime = Some t, errorMessage = Some (errorString err)\<rparr>\<rparr>"

text \<open>Every snapshot created is one that \<open>buildSnapshot\<close> makes for the schedule.\<close>

definition onlyBuilt :: "env \<Rightarrow> snapshotSchedule \<Rightarrow> action list \<Rightarrow> bool" where
  "onlyBuilt e S ys = (\<forall>s \<in> set (createdSnapshots ys). \<exists>vm t. s = buildSnapshot e S vm t)"

text \<open>The status a pass starts from: the schedule's, or the zero status when it has none.\<close>

definition initStatus :: "snapshotSchedule \<Rightarrow> scheduleStatus" where
  "initStatus S = (case schStatus S of None \<Rightarrow> emptyStatus | Some st \<Rightarrow> st)"

definition lastSnapshotTimeOf :: "snapshotSchedule \<Rightarrow> time option" where
  "lastSnapshotTimeOf S = (case schStatus S of None \<Rightarrow> None | Some st \<Rightarrow> stLastSnapshotTime st)"

definition phaseOf :: "snapshotSchedule \<Rightarrow> string" where
  "phaseOf S = (case schStatus S of None \<Rightarrow> [] | Some st \<Rightarrow> stPhase st)"

text \<open>2024-01-01 00:01:00 UTC, a full minute.\<close>

definition exMinute :: time where
  "exMinute = 1704067260 * second"

definition exEnvTick :: env where
  "exEnvTick = exEnv\<lparr>clock := (\<lambda>n. exMinute)\<rparr>"

definition exDbA :: virtualMachine where
  "exDbA = \<lparr>vmMeta = emptyMeta\<lparr>metaName := ''vmA'', metaNamespace := ''default'',
                               metaLabels := Some [''app'' \<mapsto> ''db'']\<rparr>\<rparr>"

definition exDbB :: virtualMachine where
  "exDbB = \<lparr>vmMeta = emptyMeta\<lparr>metaName := ''vmB'', metaNamespace := ''default'',
                               metaLabels := Some [''app'' \<mapsto> ''db'']\<rparr>\<rparr>"

text \<open>A cluster with two machines labelled \<open>app=db\<close>, at a full minute, in which the
  snapshot of \<open>vmB\<close> cannot be created.\<close>

definition exEnvSel :: env where
  "exEnvSel =
     exEnv\<lparr>clock := (\<lambda>n. exMinute),
           labelSelectorAsSelector := (\<lambda>sel. Inr (\<lambda>ls. ls ''app'' = Some ''db'')),
           vmList := [VMObj exDbA, VMObj exDbB],
           createSnapshot :=
             (\<lambda>tr s. if refName (snapSource (snapSpec s)) = ''vmB''
                      then Some (GoError KindOther ''boom'') else None)\<rparr>"

definition exSelPause :: snapshotSchedule where
  "exSelPause =
     exSchedule\<lparr>schSpec := exSpec
       \<lparr>specSource := None,
        specVMSelector := Some \<lparr>matchLabels = Some [''app'' \<mapsto> ''db''], matchExpressions = []\<rparr>,
        specFailurePolicy := Some ''Pause''\<rparr>\<rparr>"

definition exWithTemplate :: "snapshotTemplateSpec option \<Rightarrow> snapshotSchedule" where
  "exWithTemplate tm = exSchedule\<lparr>schSpec := exSpec\<lparr>specSnapshotTemplate := tm\<rparr>\<rparr>"

definition exTemplateTenMinutes :: snapshotTemplateSpec where
  "exTemplateTenMinutes =
     \<lparr>tmplLabels = None, tmplAnnotations = None, tmplDeletionPolicy = None,
      tmplFailureDeadline = Some (10 * minute)\<rparr>"

text \<open>A template whose labels use the key of the \<open>schedule-name\<close> label.\<close>

definition exTemplateOverride :: snapshotTemplateSpec where
  "exTemplateOverride =
     \<lparr>tmplLabels = Some [scheduleNameLabel \<mapsto> ''other''], tmplAnnotations = None,
      tmplDeletionPolicy = None, tmplFailureDeadline = None\<rparr>"

text \<open>Name and creation time of a snapshot, and the pair the delete call is given.\<close>

definition snapName :: "virtualMachineSnapshot \<Rightarrow> string" where
  "snapName s = metaName (snapMeta s)"

definition snapCreated :: "virtualMachineSnapshot \<Rightarrow> time" where
  "snapCreated s = metaCreationTimestamp (snapMeta s)"

definition snapKey :: "virtualMachineSnapshot \<Rightarrow> string \<times> string" where
  "snapKey s = (metaNamespace (snapMeta s), metaName (snapMeta s))"

text \<open>A snapshot of schedule \<open>default/s1\<close> for \<open>vmA\<close>, with its name and creation time.\<close>

definition exSnapshotAt :: "string \<Rightarrow> time \<Rightarrow> virtualMachineSnapshot" where
  "exSnapshotAt n t =
     \<lparr>snapMeta = emptyMeta
        \<lparr>metaName := n, metaNamespace := ''default'',
         metaLabels := Some [scheduleNameLabel \<mapsto> ''s1'', snapshotSourceNameLabel \<mapsto> ''vmA''],
         metaCreationTimestamp := t\<rparr>,
      snapSpec =
        \<lparr>snapSource = \<lparr>refAPIGroup = None, refKind = ''VirtualMachine'', refName = ''vmA''\<rparr>,
         snapDeletionPolicy = None, snapFailureDeadline = None\<rparr>\<rparr>"

definition exWithRetention :: "retentionPolicy \<Rightarrow> snapshotSchedule" where
  "exWithRetention r = exSchedule\<lparr>schSpec := exSpec\<lparr>specRetention := Some r\<rparr>\<rparr>"

text \<open>Keep two snapshots of each machine, none older than one hour.\<close>

definition exKeepTwo :: retentionPolicy where
  "exKeepTwo = \<lparr>retExpires = Some (60 * minute), retMaxCount = Some 2\<rparr>"

text \<open>Five snapshots of \<open>vmA\<close>, taken 180, 120, 30, 20 and 10 minutes before \<open>exNow\<close>, in
  the order in which the store happens to list them.\<close>

definition exFive :: "storeObj list" where
  "exFive =
     [SnapshotObj (exSnapshotAt ''t3'' (exNow - 30 * minute)),
      SnapshotObj (exSnapshotAt ''t1'' (exNow - 180 * minute)),
      SnapshotObj (exSnapshotAt ''t5'' (exNow - 10 * minute)),
      SnapshotObj (exSnapshotAt ''t2'' (exNow - 120 * minute)),
      SnapshotObj (exSnapshotAt ''t4'' (exNow - 20 * minute))]"

definition exEnvFive :: env where
  "exEnvFive = exEnv\<lparr>snapshotList := exFive\<rparr>"

text \<open>Two snapshots of \<open>vmA\<close> with the same creation time, and the two orders in which a
  store can list them.\<close>

definition exKeepOne :: retentionPolicy where
  "exKeepOne = \<lparr>retExpires = None, retMaxCount = Some 1\<rparr>"

definition exTwinA :: virtualMachineSnapshot where
  "exTwinA = exSnapshotAt ''snap-a'' (exNow - 10 * minute)"

definition exTwinB :: virtualMachineSnapshot where
  "exTwinB = exSnapshotAt ''snap-b'' (exNow - 10 * minute)"

definition exEnvTwinsAB :: env where
  "exEnvTwinsAB = exEnv\<lparr>snapshotList := [SnapshotObj exTwinA, SnapshotObj exTwinB]\<rparr>"

definition exEnvTwinsBA :: env where
  "exEnvTwinsBA = exEnv\<lparr>snapshotList := [SnapshotObj exTwinB, SnapshotObj exTwinA]\<rparr>"

section \<open>Facts about traces\<close>

lemma trace_emit [simp]: "trace (emit a w) = trace w @ [a]"
  by (simp add: emit_def)

lemma ticks_emit [simp]: "ticks (emit a w) = ticks w"
  by (simp add: emit_def)

lemma newActions_append [simp]: "trace w' = trace w @ ys \<Longrightarrow> newActions w w' = ys"
  by (simp add: newActions_def)

lemma exSchedule_key [simp]: "scheduleKey (exSchedule\<lparr>schStatus := st\<rparr>) = ''default/s1''"
  by (simp add: scheduleKey_def exSchedule_def emptyMeta_def)

section \<open>The status writer compares five fields\<close>

lemma statusEqual_fields:
  "statusEqual (Some x) (Some y) \<longleftrightarrow>
     stPhase x = stPhase y
     \<and> stCurrentSnapshotCount x = stCurrentSnapshotCount y
     \<and> stLastSuccessfulSnapshotName x = stLastSuccessfulSnapshotName y
     \<and> stLastSnapshotTime x = stLastSnapshotTime y
     \<and> stNextSnapshotTime x = stNextSnapshotTime y"
  by (auto simp: statusEqual_def timeEqual_def split: option.splits)

lemma statusEqual_nil:
  "statusEqual None b \<longleftrightarrow> b = None" "statusEqual a None \<longleftrightarrow> a = None"
  by (auto simp: statusEqual_def split: option.splits)

text \<open>
  C6, as the code has it. When the store holds the schedule, the status writer skips the
  write exactly when stored and candidate status agree on phase, currentSnapshotCount,
  lastSuccessfulSnapshotName, lastSnapshotTime and nextSnapshotTime; error, conditions
  and the per-VM sub-status list are not compared. Otherwise, the payload generated, it
  issues one JSON-patch \<open>replace /status\<close> carrying the candidate status and returns what
  the patch call returns.
\<close>

theorem status_writer_skips_iff_five_fields_equal:
  assumes stored: "scheduleGetByKey e (scheduleKey S) = Inr (Some (ScheduleObj current))"
      and cur: "schStatus current = Some x"
      and cand: "schStatus S = Some y"
      and payload: "generatePatchPayload e [PatchOperation PatchReplaceOp ''/status'' (schStatus S)] = None"
  shows "(statusEqual (schStatus current) (schStatus S) \<longleftrightarrow>
            stPhase x = stPhase y
            \<and> stCurrentSnapshotCount x = stCurrentSnapshotCount y
            \<and> stLastSuccessfulSnapshotName x = stLastSuccessfulSnapshotName y
            \<and> stLastSnapshotTime x = stLastSnapshotTime y
            \<and> stNextSnapshotTime x = stNextSnapshotTime y)
         \<and> (if statusEqual (schStatus current) (schStatus S)
             then updateScheduleStatus e S w = (None, emit (GetSchedule (scheduleKey S)) w)
             else newActions w (snd (updateScheduleStatus e S w)) =
                    [GetSchedule (scheduleKey S),
                     PatchSchedule (metaNamespace (schMeta S)) (metaName (schMeta S))
                       ''application/json-patch+json''
                       [PatchOperation ''replace'' ''/status'' (schStatus S)]
                       (fst (updateScheduleStatus e S w))])"
proof -
  have fields: "statusEqual (schStatus current) (schStatus S) \<longleftrightarrow>
            stPhase x = stPhase y
            \<and> stCurrentSnapshotCount x = stCurrentSnapshotCount y
            \<and> stLastSuccessfulSnapshotName x = stLastSuccessfulSnapshotName y
            \<and> stLastSnapshotTime x = stLastSnapshotTime y
            \<and> stNextSnapshotTime x = stNextSnapshotTime y"
    by (simp only: cur cand statusEqual_fields)
  have writes: "if statusEqual (schStatus current) (schStatus S)
             then updateScheduleStatus e S w = (None, emit (GetSchedule (scheduleKey S)) w)
             else newActions w (snd (updateScheduleStatus e S w)) =
                    [GetSchedule (scheduleKey S),
                     PatchSchedule (metaNamespace (schMeta S)) (metaName (schMeta S))
                       ''application/json-patch+json''
                       [PatchOperation ''replace'' ''/status'' (schStatus S)]
                       (fst (updateScheduleStatus e S w))]"
    using stored payload
    by (simp add: updateScheduleStatus_def Let_def newActions_def PatchReplaceOp_def jsonPatchType_def)
  from fields writes show ?thesis by blast
qed

theorem status_writer_skips_iff_five_fields_equal_witness:
  "scheduleGetByKey exEnvStored (scheduleKey exCandidatePaused) = Inr (Some (ScheduleObj exStoredActive))
   \<and> schStatus exStoredActive = Some (emptyStatus\<lparr>stPhase := ''Active''\<rparr>)
   \<and> schStatus exCandidatePaused = Some (emptyStatus\<lparr>stPhase := ''Paused''\<rparr>)
   \<and> generatePatchPayload exEnvStored
        [PatchOperation PatchReplaceOp ''/status'' (schStatus exCandidatePaused)] = None
   \<and> \<not> statusEqual (schStatus exStoredActive) (schStatus exCandidatePaused)
   \<and> newActions w0 (snd (updateScheduleStatus exEnvStored exCandidatePaused w0)) =
        [GetSchedule ''default/s1'',
         PatchSchedule ''default'' ''s1'' ''application/json-patch+json''
           [PatchOperation ''replace'' ''/status'' (Some (emptyStatus\<lparr>stPhase := ''Paused''\<rparr>))]
           (fst (updateScheduleStatus exEnvStored exCandidatePaused w0))]"
proof -
  have h1: "scheduleGetByKey exEnvStored (scheduleKey exCandidatePaused) = Inr (Some (ScheduleObj exStoredActive))"
    by (simp add: exEnvStored_def exCandidatePaused_def)
  have h2: "schStatus exStoredActive = Some (emptyStatus\<lparr>stPhase := ''Active''\<rparr>)"
    by (simp add: exStoredActive_def)
  have h3: "schStatus exCandidatePaused = Some (emptyStatus\<lparr>stPhase := ''Paused''\<rparr>)"
    by (simp add: exCandidatePaused_def)
  have h4: "generatePatchPayload exEnvStored
        [PatchOperation PatchReplaceOp ''/status'' (schStatus exCandidatePaused)] = None"
    by (simp add: exEnvStored_def exEnv_def)
  have ne: "\<not> statusEqual (schStatus exStoredActive) (schStatus exCandidatePaused)"
    by (simp add: h2 h3 statusEqual_fields)
  have m: "metaNamespace (schMeta exCandidatePaused) = ''default''"
          "metaName (schMeta exCandidatePaused) = ''s1''"
          "scheduleKey exCandidatePaused = ''default/s1''"
    by (simp_all add: exCandidatePaused_def exSchedule_def emptyMeta_def scheduleKey_def)
  show ?thesis
    using status_writer_skips_iff_five_fields_equal [OF h1 h2 h3 h4, of w0] ne h1 h2 h3 h4
    by (simp add: m)
qed

theorem status_writer_ignores_per_vm_statuses_counterexample:
  "stVMSnapshotStatuses (case schStatus exCandidatePerVM of Some y \<Rightarrow> y | None \<Rightarrow> emptyStatus)
     \<noteq> stVMSnapshotStatuses (case schStatus exStoredActive of Some x \<Rightarrow> x | None \<Rightarrow> emptyStatus)
   \<and> scheduleGetByKey exEnvStored (scheduleKey exCandidatePerVM) = Inr (Some (ScheduleObj exStoredActive))
   \<and> statusEqual (schStatus exStoredActive) (schStatus exCandidatePerVM)
   \<and> updateScheduleStatus exEnvStored exCandidatePerVM w0 = (None, emit (GetSchedule ''default/s1'') w0)"
  by (simp add: exCandidatePerVM_def exStoredActive_def exEnvStored_def emptyStatus_def
      statusEqual_fields updateScheduleStatus_def Let_def)

section \<open>Snapshots are selected by namespace and labels\<close>

lemma set_selectSnapshots:
  "set (selectSnapshots S vm objs) = {s. SnapshotObj s \<in> set objs \<and> belongsToScheduleVM S vm s}"
  by (induction objs) (auto split: storeObj.splits)

lemma countLoop_eq:
  "countLoop S objs n = n + of_nat (length (filter (countsForSchedule S) objs))"
  by (induction objs arbitrary: n) simp_all

lemma label_constants_distinct:
  "scheduledSnapshotLabel \<noteq> scheduleNameLabel"
  "scheduledSnapshotLabel \<noteq> snapshotSourceNameLabel"
  "scheduleNameLabel \<noteq> snapshotSourceNameLabel"
  "scheduleNameLabel \<noteq> scheduleNamespaceLabel"
  "scheduleNamespaceLabel \<noteq> scheduledSnapshotLabel"
  "scheduleNamespaceLabel \<noteq> snapshotSourceNameLabel"
  by (simp_all add: scheduledSnapshotLabel_def scheduleNameLabel_def snapshotSourceNameLabel_def
      scheduleNamespaceLabel_def)

text \<open>
  C10. A snapshot of the store is selected for retention exactly when its namespace is the
  schedule's, its label map is not nil, its \<open>schedule-name\<close> label reads the schedule's name
  and its \<open>source-name\<close> label reads the machine's name; it is counted exactly when the
  first three hold. \<open>currentSnapshotCount\<close> is the number of counted store objects (in 32
  bits). Owner references and the \<open>scheduled\<close> label play no part: replacing the owner
  references, or setting or removing the \<open>scheduled\<close> label, changes neither test.
\<close>

theorem selection_is_by_namespace_and_labels_only:
  "(s \<in> set (fst (getScheduledSnapshotsForVM e S vm w)) \<longleftrightarrow>
      SnapshotObj s \<in> set (snapshotList e)
      \<and> metaNamespace (snapMeta s) = metaNamespace (schMeta S)
      \<and> metaLabels (snapMeta s) \<noteq> None
      \<and> goIndex (metaLabels (snapMeta s)) scheduleNameLabel = metaName (schMeta S)
      \<and> goIndex (metaLabels (snapMeta s)) snapshotSourceNameLabel = metaName (vmMeta vm))
   \<and> (countsForSchedule S (SnapshotObj s) \<longleftrightarrow>
        metaNamespace (snapMeta s) = metaNamespace (schMeta S)
        \<and> metaLabels (snapMeta s) \<noteq> None
        \<and> goIndex (metaLabels (snapMeta s)) scheduleNameLabel = metaName (schMeta S))
   \<and> fst (countSnapshotsForSchedule e S w)
        = of_nat (length (filter (countsForSchedule S) (snapshotList e)))
   \<and> belongsToScheduleVM S vm (s\<lparr>snapMeta := (snapMeta s)\<lparr>metaOwnerReferences := refs\<rparr>\<rparr>)
        = belongsToScheduleVM S vm s
   \<and> countsForSchedule S (SnapshotObj (s\<lparr>snapMeta := (snapMeta s)\<lparr>metaOwnerReferences := refs\<rparr>\<rparr>))
        = countsForSchedule S (SnapshotObj s)
   \<and> (metaLabels (snapMeta s) = Some f \<longrightarrow>
        belongsToScheduleVM S vm
            (s\<lparr>snapMeta := (snapMeta s)\<lparr>metaLabels := Some (f(scheduledSnapshotLabel := v))\<rparr>\<rparr>)
          = belongsToScheduleVM S vm s
        \<and> countsForSchedule S
            (SnapshotObj (s\<lparr>snapMeta := (snapMeta s)\<lparr>metaLabels := Some (f(scheduledSnapshotLabel := v))\<rparr>\<rparr>))
          = countsForSchedule S (SnapshotObj s))"
proof -
  have sel: "s \<in> set (fst (getScheduledSnapshotsForVM e S vm w)) \<longleftrightarrow>
      SnapshotObj s \<in> set (snapshotList e)
      \<and> metaNamespace (snapMeta s) = metaNamespace (schMeta S)
      \<and> metaLabels (snapMeta s) \<noteq> None
      \<and> goIndex (metaLabels (snapMeta s)) scheduleNameLabel = metaName (schMeta S)
      \<and> goIndex (metaLabels (snapMeta s)) snapshotSourceNameLabel = metaName (vmMeta vm)"
    by (auto simp: getScheduledSnapshotsForVM_def set_selectSnapshots belongsToScheduleVM_def)
  have cnt: "countsForSchedule S (SnapshotObj s) \<longleftrightarrow>
        metaNamespace (snapMeta s) = metaNamespace (schMeta S)
        \<and> metaLabels (snapMeta s) \<noteq> None
        \<and> goIndex (metaLabels (snapMeta s)) scheduleNameLabel = metaName (schMeta S)"
    by (auto simp: countsForSchedule_def)
  have num: "fst (countSnapshotsForSchedule e S w)
        = of_nat (length (filter (countsForSchedule S) (snapshotList e)))"
    by (simp add: countSnapshotsForSchedule_def countLoop_eq)
  have own: "belongsToScheduleVM S vm (s\<lparr>snapMeta := (snapMeta s)\<lparr>metaOwnerReferences := refs\<rparr>\<rparr>)
        = belongsToScheduleVM S vm s"
       "countsForSchedule S (SnapshotObj (s\<lparr>snapMeta := (snapMeta s)\<lparr>metaOwnerReferences := refs\<rparr>\<rparr>))
        = countsForSchedule S (SnapshotObj s)"
    by (simp_all add: belongsToScheduleVM_def countsForSchedule_def)
  have lab: "metaLabels (snapMeta s) = Some f \<longrightarrow>
        belongsToScheduleVM S vm
            (s\<lparr>snapMeta := (snapMeta s)\<lparr>metaLabels := Some (f(scheduledSnapshotLabel := v))\<rparr>\<rparr>)
          = belongsToScheduleVM S vm s
        \<and> countsForSchedule S
            (SnapshotObj (s\<lparr>snapMeta := (snapMeta s)\<lparr>metaLabels := Some (f(scheduledSnapshotLabel := v))\<rparr>\<rparr>))
          = countsForSchedule S (SnapshotObj s)"
    using label_constants_distinct
    by (simp add: belongsToScheduleVM_def countsForSchedule_def goIndex_def)
  from sel cnt num own lab show ?thesis by blast
qed

theorem selection_is_by_namespace_and_labels_only_witness:
  "metaLabels (snapMeta exForeignSnapshot)
     = Some [scheduleNameLabel \<mapsto> ''s1'', snapshotSourceNameLabel \<mapsto> ''vmA'']
   \<and> metaOwnerReferences (snapMeta exForeignSnapshot) = []
   \<and> goIndex (metaLabels (snapMeta exForeignSnapshot)) scheduledSnapshotLabel = ''''
   \<and> exForeignSnapshot \<in> set (fst (getScheduledSnapshotsForVM exEnvForeign exSchedule exVM w0))
   \<and> fst (countSnapshotsForSchedule exEnvForeign exSchedule w0) = 1
   \<and> belongsToScheduleVM exSchedule exVM
        (exForeignSnapshot\<lparr>snapMeta := (snapMeta exForeignSnapshot)
           \<lparr>metaLabels := Some ([scheduleNameLabel \<mapsto> ''s1'', snapshotSourceNameLabel \<mapsto> ''vmA'']
                                  (scheduledSnapshotLabel := Some ''false''))\<rparr>\<rparr>)"
proof -
  have l: "metaLabels (snapMeta exForeignSnapshot)
     = Some [scheduleNameLabel \<mapsto> ''s1'', snapshotSourceNameLabel \<mapsto> ''vmA'']"
    by (simp add: exForeignSnapshot_def)
  have store: "snapshotList exEnvForeign = [SnapshotObj exForeignSnapshot]"
    by (simp add: exEnvForeign_def)
  have names: "metaNamespace (snapMeta exForeignSnapshot) = metaNamespace (schMeta exSchedule)"
      "goIndex (metaLabels (snapMeta exForeignSnapshot)) scheduleNameLabel = metaName (schMeta exSchedule)"
      "goIndex (metaLabels (snapMeta exForeignSnapshot)) snapshotSourceNameLabel = metaName (vmMeta exVM)"
      "goIndex (metaLabels (snapMeta exForeignSnapshot)) scheduledSnapshotLabel = ''''"
      "metaOwnerReferences (snapMeta exForeignSnapshot) = []"
    using label_constants_distinct
    by (simp_all add: exForeignSnapshot_def exSchedule_def exVM_def emptyMeta_def goIndex_def)
  have bel: "belongsToScheduleVM exSchedule exVM exForeignSnapshot"
    using names l by (simp add: belongsToScheduleVM_def)
  show ?thesis
    using selection_is_by_namespace_and_labels_only
            [of exForeignSnapshot exEnvForeign exSchedule exVM w0 "[]"
                "[scheduleNameLabel \<mapsto> ''s1'', snapshotSourceNameLabel \<mapsto> ''vmA'']" "Some ''false''"]
          l store names bel
    by simp
qed

section \<open>Creating snapshots: what is sent and what comes back\<close>

lemma createdSnapshots_simps [simp]:
  "createdSnapshots [] = []"
  "createdSnapshots (xs @ ys) = createdSnapshots xs @ createdSnapshots ys"
  "createdSnapshots (CreateSnapshot s r # xs) = s # createdSnapshots xs"
  "createdSnapshots (RecordEvent t rs m # xs) = createdSnapshots xs"
  "createdSnapshots (GetVM k # xs) = createdSnapshots xs"
  "createdSnapshots (ListVMs # xs) = createdSnapshots xs"
  "createdSnapshots (ListSnapshots # xs) = createdSnapshots xs"
  "createdSnapshots (GetSchedule k # xs) = createdSnapshots xs"
  "createdSnapshots (DeleteSnapshot ns n r # xs) = createdSnapshots xs"
  "createdSnapshots (PatchSchedule ns n pt ops r # xs) = createdSnapshots xs"
  by (simp_all add: createdSnapshots_def createdBy_def)

lemma failureLines_simps [simp]:
  "failureLines [] = []"
  "failureLines (xs @ ys) = failureLines xs @ failureLines ys"
  "failureLines (CreateSnapshot s None # xs) = failureLines xs"
  "failureLines (CreateSnapshot s (Some x) # xs) =
     (if IsAlreadyExists x then failureLines xs
      else (''VM '' @ refName (snapSource (snapSpec s)) @ '': '' @ errorString x) # failureLines xs)"
  "failureLines (RecordEvent t rs m # xs) = failureLines xs"
  by (simp_all add: failureLines_def failureLineOf_def)

lemma buildSnapshot_source [simp]:
  "refName (snapSource (snapSpec (buildSnapshot e S vm t))) = metaName (vmMeta vm)"
  by (simp add: buildSnapshot_def Let_def split: option.splits)

lemma createSnapshotForVM_eq:
  "createSnapshotForVM e S vm w =
     (let snapshot = buildSnapshot e S vm (clock e (ticks w));
          err = createSnapshot e (trace w) snapshot;
          w2 = emit (CreateSnapshot snapshot err) (w\<lparr>ticks := Suc (ticks w)\<rparr>)
      in case err of
           Some x \<Rightarrow> if IsAlreadyExists x then (None, w2) else (Some x, w2)
         | None \<Rightarrow>
             (None, emit (RecordEvent EventTypeNormal scheduleCreateSnapshotEvent
                            (''Created snapshot '' @ metaName (snapMeta snapshot) @ '' for VM ''
                               @ metaName (vmMeta vm))) w2))"
  by (simp add: createSnapshotForVM_def timeNow_def Let_def split: option.splits)

lemma createSnapshotForVM_grows:
  "\<exists>ys. trace (snd (createSnapshotForVM e S vm w)) = trace w @ ys
        \<and> createdSnapshots ys = [buildSnapshot e S vm (clock e (ticks w))]
        \<and> failureLines ys =
            (case fst (createSnapshotForVM e S vm w) of
               None \<Rightarrow> []
             | Some x \<Rightarrow> [''VM '' @ metaName (vmMeta vm) @ '': '' @ errorString x])"
  by (simp add: createSnapshotForVM_eq Let_def split: option.splits)

lemma createLoop_grows:
  "\<exists>ys. trace (snd (createLoop e S vms errs w)) = trace w @ ys
        \<and> fst (createLoop e S vms errs w) = errs @ failureLines ys
        \<and> length (createdSnapshots ys) = length vms
        \<and> (\<forall>s \<in> set (createdSnapshots ys). \<exists>vm t. s = buildSnapshot e S vm t)"
proof (induction vms arbitrary: errs w)
  case Nil
  show ?case by simp
next
  case (Cons vm vms)
  obtain err w1 where step: "createSnapshotForVM e S vm w = (err, w1)"
    by (cases "createSnapshotForVM e S vm w")
  from createSnapshotForVM_grows [of e S vm w] step
  obtain ys1 where ys1: "trace w1 = trace w @ ys1"
      "createdSnapshots ys1 = [buildSnapshot e S vm (clock e (ticks w))]"
      "failureLines ys1 = (case err of None \<Rightarrow> []
                           | Some x \<Rightarrow> [''VM '' @ metaName (vmMeta vm) @ '': '' @ errorString x])"
    by auto
  let ?errs1 = "case err of None \<Rightarrow> errs
                | Some x \<Rightarrow> errs @ [''VM '' @ metaName (vmMeta vm) @ '': '' @ errorString x]"
  from Cons.IH [of ?errs1 w1]
  obtain ys2 where ys2: "trace (snd (createLoop e S vms ?errs1 w1)) = trace w1 @ ys2"
      "fst (createLoop e S vms ?errs1 w1) = ?errs1 @ failureLines ys2"
      "length (createdSnapshots ys2) = length vms"
      "\<forall>s \<in> set (createdSnapshots ys2). \<exists>vm t. s = buildSnapshot e S vm t"
    by blast
  have e1: "?errs1 = errs @ failureLines ys1"
    using ys1(3) by (simp split: option.splits)
  have "trace (snd (createLoop e S (vm # vms) errs w)) = trace w @ (ys1 @ ys2)"
    using step ys1(1) ys2(1) by simp
  moreover have "fst (createLoop e S (vm # vms) errs w) = errs @ failureLines (ys1 @ ys2)"
    using step ys2(2) e1 by simp
  moreover have "length (createdSnapshots (ys1 @ ys2)) = length (vm # vms)"
    using ys1(2) ys2(3) by simp
  moreover have "\<forall>s \<in> set (createdSnapshots (ys1 @ ys2)). \<exists>vm t. s = buildSnapshot e S vm t"
    using ys1(2) ys2(4) by auto
  ultimately show ?case by blast
qed

lemma createScheduledSnapshots_grows:
  "\<exists>ys. trace (snd (createScheduledSnapshots e S vms w)) = trace w @ ys
        \<and> fst (createScheduledSnapshots e S vms w) =
            (if failureLines ys = [] then None
             else Some (errorf (''failed to create snapshots: '' @ joinStrings (failureLines ys) ''; '')))
        \<and> length (createdSnapshots ys) = length vms
        \<and> (\<forall>s \<in> set (createdSnapshots ys). \<exists>vm t. s = buildSnapshot e S vm t)"
proof -
  obtain errs w1 where cl: "createLoop e S vms [] w = (errs, w1)"
    by (cases "createLoop e S vms [] w")
  from createLoop_grows [of e S vms "[]" w] cl
  obtain ys where ys: "trace w1 = trace w @ ys"
      "errs = failureLines ys"
      "length (createdSnapshots ys) = length vms"
      "\<forall>s \<in> set (createdSnapshots ys). \<exists>vm t. s = buildSnapshot e S vm t"
    by auto
  have "trace (snd (createScheduledSnapshots e S vms w)) = trace w @ ys"
    using ys(1) cl by (simp add: createScheduledSnapshots_def Let_def)
  moreover have "fst (createScheduledSnapshots e S vms w) =
            (if failureLines ys = [] then None
             else Some (errorf (''failed to create snapshots: '' @ joinStrings (failureLines ys) ''; '')))"
    using ys(2) cl by (simp add: createScheduledSnapshots_def Let_def)
  ultimately show ?thesis using ys(3,4) by blast
qed


lemma formatTimestamp_exNow: "formatTimestamp exNow = ''20240101-000030''"
  by code_simp


section \<open>What each step adds to the trace\<close>

lemma deleteCalls_simps [simp]:
  "deleteCalls [] = []"
  "deleteCalls (xs @ ys) = deleteCalls xs @ deleteCalls ys"
  "deleteCalls (DeleteSnapshot ns n r # xs) = (ns, n) # deleteCalls xs"
  "deleteCalls (CreateSnapshot s r # xs) = deleteCalls xs"
  "deleteCalls (RecordEvent t rs m # xs) = deleteCalls xs"
  "deleteCalls (GetVM k # xs) = deleteCalls xs"
  "deleteCalls (ListVMs # xs) = deleteCalls xs"
  "deleteCalls (ListSnapshots # xs) = deleteCalls xs"
  "deleteCalls (GetSchedule k # xs) = deleteCalls xs"
  "deleteCalls (PatchSchedule ns n pt ops r # xs) = deleteCalls xs"
  by (simp_all add: deleteCalls_def deletedBy_def)

lemma eventReasons_simps [simp]:
  "eventReasons [] = []"
  "eventReasons (xs @ ys) = eventReasons xs @ eventReasons ys"
  "eventReasons (RecordEvent t rs m # xs) = rs # eventReasons xs"
  "eventReasons (DeleteSnapshot ns n r # xs) = eventReasons xs"
  "eventReasons (CreateSnapshot s r # xs) = eventReasons xs"
  "eventReasons (GetVM k # xs) = eventReasons xs"
  "eventReasons (ListVMs # xs) = eventReasons xs"
  "eventReasons (ListSnapshots # xs) = eventReasons xs"
  "eventReasons (GetSchedule k # xs) = eventReasons xs"
  "eventReasons (PatchSchedule ns n pt ops r # xs) = eventReasons xs"
  by (simp_all add: eventReasons_def eventReasonOf_def)

lemma isVMLookup_simps [simp]:
  "isVMLookup (GetVM k)" "isVMLookup ListVMs"
  "\<not> isVMLookup ListSnapshots" "\<not> isVMLookup (GetSchedule k)"
  "\<not> isVMLookup (CreateSnapshot s r)" "\<not> isVMLookup (DeleteSnapshot ns n r)"
  "\<not> isVMLookup (PatchSchedule ns n pt ops r)" "\<not> isVMLookup (RecordEvent t rs m)"
  by (simp_all add: isVMLookup_def)

lemma statusOnly_simps [simp]:
  "statusOnly []"
  "statusOnly (xs @ ys) \<longleftrightarrow> statusOnly xs \<and> statusOnly ys"
  "statusOnly (RecordEvent t rs m # xs) \<longleftrightarrow> statusOnly xs"
  "statusOnly (ListSnapshots # xs) \<longleftrightarrow> statusOnly xs"
  "statusOnly (GetSchedule k # xs) \<longleftrightarrow> statusOnly xs"
  "statusOnly (PatchSchedule ns n pt ops r # xs) \<longleftrightarrow> statusOnly xs"
  "\<not> statusOnly (CreateSnapshot s r # xs)"
  "\<not> statusOnly (DeleteSnapshot ns n r # xs)"
  "\<not> statusOnly (GetVM k # xs)"
  "\<not> statusOnly (ListVMs # xs)"
  by (auto simp: statusOnly_def)

lemma noCreate_simps [simp]:
  "noCreate []"
  "noCreate (xs @ ys) \<longleftrightarrow> noCreate xs \<and> noCreate ys"
  "noCreate (RecordEvent t rs m # xs) \<longleftrightarrow> noCreate xs"
  "noCreate (ListSnapshots # xs) \<longleftrightarrow> noCreate xs"
  "noCreate (GetSchedule k # xs) \<longleftrightarrow> noCreate xs"
  "noCreate (PatchSchedule ns n pt ops r # xs) \<longleftrightarrow> noCreate xs"
  "noCreate (DeleteSnapshot ns n r # xs) \<longleftrightarrow> noCreate xs"
  "noCreate (GetVM k # xs) \<longleftrightarrow> noCreate xs"
  "noCreate (ListVMs # xs) \<longleftrightarrow> noCreate xs"
  "\<not> noCreate (CreateSnapshot s r # xs)"
  by (auto simp: noCreate_def)

lemma statusOnly_noCreate: "statusOnly ys \<Longrightarrow> noCreate ys"
  by (simp add: statusOnly_def noCreate_def)

lemma grows_refl: "Q [] \<Longrightarrow> grows Q w w"
  by (simp add: grows_def)

lemma grows_trans:
  "grows Q w w1 \<Longrightarrow> grows Q w1 w2 \<Longrightarrow> (\<And>xs ys. Q xs \<Longrightarrow> Q ys \<Longrightarrow> Q (xs @ ys)) \<Longrightarrow> grows Q w w2"
  by (auto simp: grows_def)

lemma grows_mono: "grows Q w w' \<Longrightarrow> (\<And>ys. Q ys \<Longrightarrow> R ys) \<Longrightarrow> grows R w w'"
  by (auto simp: grows_def)

lemma grows_emit: "Q [a] \<Longrightarrow> grows Q w (emit a w)"
  by (simp add: grows_def)

lemma grows_ticks [simp]:
  "grows Q (w\<lparr>ticks := n\<rparr>) w' = grows Q w w'"
  "grows Q w (w'\<lparr>ticks := n\<rparr>) = grows Q w w'"
  by (simp_all add: grows_def)

lemma grows_newActions: "grows Q w w' \<Longrightarrow> Q (newActions w w')"
  by (auto simp: grows_def)

lemma updateScheduleStatus_grows:
  "grows (\<lambda>ys. statusOnly ys \<and> eventReasons ys = []) w (snd (updateScheduleStatus e S w))"
  by (simp add: updateScheduleStatus_def grows_def Let_def split: sum.splits option.splits storeObj.splits)

lemma updateScheduleStatus_ticks [simp]:
  "ticks (snd (updateScheduleStatus e S w)) = ticks w"
  by (simp add: updateScheduleStatus_def Let_def split: sum.splits option.splits storeObj.splits)

lemma countsForSchedule_status [simp]:
  "countsForSchedule (S\<lparr>schStatus := x\<rparr>) obj = countsForSchedule S obj"
  by (simp add: countsForSchedule_def split: storeObj.splits)

lemma countLoop_status [simp]: "countLoop (S\<lparr>schStatus := x\<rparr>) objs n = countLoop S objs n"
  by (induction objs arbitrary: n) simp_all

lemma statusOnly_emit_from:
  "grows statusOnly w w' \<Longrightarrow> statusOnly [a] \<Longrightarrow> grows statusOnly w (emit a w')"
  by (auto simp: grows_def)

lemma updateScheduleStatus_grows_from:
  "grows statusOnly w w' \<Longrightarrow> grows statusOnly w (snd (updateScheduleStatus e S w'))"
proof -
  assume a: "grows statusOnly w w'"
  have b: "grows statusOnly w' (snd (updateScheduleStatus e S w'))"
    using updateScheduleStatus_grows [of w' e S] by (auto elim: grows_mono)
  show ?thesis using grows_trans [OF a b] by simp
qed

lemma updateScheduleStatusError_grows_from:
  assumes "grows statusOnly w w'"
  shows "grows statusOnly w (snd (snd (updateScheduleStatusError e S err w')))"
  using assms
  by (simp add: updateScheduleStatusError_def timeNow_def Let_def case_prod_beta
      updateScheduleStatus_grows_from statusOnly_emit_from split: option.splits)

lemma updateScheduleStatusPaused_grows_from:
  assumes "grows statusOnly w w'"
  shows "grows statusOnly w (snd (snd (updateScheduleStatusPaused e S w')))"
  using assms
  by (simp add: updateScheduleStatusPaused_def Let_def case_prod_beta
      updateScheduleStatus_grows_from split: option.splits)

lemma updateScheduleStatusActive_grows_from:
  assumes "grows statusOnly w w'"
  shows "grows statusOnly w (snd (snd (updateScheduleStatusActive e S cs w')))"
  using assms
  by (simp add: updateScheduleStatusActive_def countSnapshotsForSchedule_def timeNow_def Let_def
      case_prod_beta updateScheduleStatus_grows_from statusOnly_emit_from split: option.splits)

section \<open>A disabled schedule\<close>

lemma updateVMSnapshotSchedule_disabled:
  assumes "cronParse e (specSchedule (schSpec S)) = Inr cs" and "specDisabled (schSpec S)"
  shows "updateVMSnapshotSchedule e S w =
           (Returned (0, fst (updateScheduleStatus e (S\<lparr>schStatus := Some (pausedStatus S)\<rparr>) w)),
            S\<lparr>schStatus := Some (pausedStatus S)\<rparr>,
            snd (updateScheduleStatus e (S\<lparr>schStatus := Some (pausedStatus S)\<rparr>) w))"
  using assms
  by (simp add: updateVMSnapshotSchedule_def updateScheduleStatusPaused_def pausedStatus_def Let_def
      case_prod_beta split: option.splits)

text \<open>
  C7, as the code has it. A pass over a schedule with \<open>disabled=true\<close> and a cron expression
  that parses sets the phase to Paused, clears the error and hands that status to the
  status writer; it returns a zero delay with whatever the status writer returns: nil
  unless the write fails. Nothing else happens in the pass: no snapshot is created or
  deleted and no machine is looked up.
\<close>

theorem disabled_schedule_pauses_without_snapshot_calls:
  assumes "cronParse e (specSchedule (schSpec S)) = Inr cs" and "specDisabled (schSpec S)"
  shows "fst (updateVMSnapshotSchedule e S w)
           = Returned (0, fst (updateScheduleStatus e (S\<lparr>schStatus := Some (pausedStatus S)\<rparr>) w))
         \<and> fst (snd (updateVMSnapshotSchedule e S w)) = S\<lparr>schStatus := Some (pausedStatus S)\<rparr>
         \<and> stPhase (pausedStatus S) = ''Paused''
         \<and> stError (pausedStatus S) = None
         \<and> snd (snd (updateVMSnapshotSchedule e S w))
             = snd (updateScheduleStatus e (S\<lparr>schStatus := Some (pausedStatus S)\<rparr>) w)
         \<and> createdSnapshots (newActions w (snd (snd (updateVMSnapshotSchedule e S w)))) = []
         \<and> deleteCalls (newActions w (snd (snd (updateVMSnapshotSchedule e S w)))) = []
         \<and> filter isVMLookup (newActions w (snd (snd (updateVMSnapshotSchedule e S w)))) = []"
proof -
  let ?S1 = "S\<lparr>schStatus := Some (pausedStatus S)\<rparr>"
  have eq: "updateVMSnapshotSchedule e S w =
           (Returned (0, fst (updateScheduleStatus e ?S1 w)), ?S1, snd (updateScheduleStatus e ?S1 w))"
    using assms by (rule updateVMSnapshotSchedule_disabled)
  have "grows (\<lambda>ys. statusOnly ys \<and> eventReasons ys = []) w (snd (updateScheduleStatus e ?S1 w))"
    by (rule updateScheduleStatus_grows)
  then have "statusOnly (newActions w (snd (updateScheduleStatus e ?S1 w)))"
    by (auto dest: grows_newActions)
  then have quiet: "createdSnapshots (newActions w (snd (updateScheduleStatus e ?S1 w))) = []"
      "deleteCalls (newActions w (snd (updateScheduleStatus e ?S1 w))) = []"
      "filter isVMLookup (newActions w (snd (updateScheduleStatus e ?S1 w))) = []"
    by (simp_all add: statusOnly_def)
  have ph: "stPhase (pausedStatus S) = ''Paused''" "stError (pausedStatus S) = None"
    by (simp_all add: pausedStatus_def SchedulePhasePaused_def)
  show ?thesis using quiet ph by (simp add: eq)
qed

lemma w0_simps [simp]: "trace w0 = []" "ticks w0 = 0"
  by (simp_all add: w0_def)

lemma exDisabled_facts:
  "cronParse exEnvStored (specSchedule (schSpec exDisabled)) = Inr everyMinute"
  "cronParse exEnvPatchFails (specSchedule (schSpec exDisabled)) = Inr everyMinute"
  "specDisabled (schSpec exDisabled)"
  "pausedStatus exDisabled = emptyStatus\<lparr>stPhase := ''Paused''\<rparr>"
  "scheduleKey (exDisabled\<lparr>schStatus := st\<rparr>) = ''default/s1''"
  "metaNamespace (schMeta exDisabled) = ''default''"
  "metaName (schMeta exDisabled) = ''s1''"
  by (simp_all add: exEnvStored_def exEnvPatchFails_def exEnv_def exDisabled_def exSchedule_def
      exSpec_def pausedStatus_def SchedulePhasePaused_def emptyStatus_def scheduleKey_def emptyMeta_def)

lemma exDisabled_write:
  "updateScheduleStatus exEnvStored (exDisabled\<lparr>schStatus := Some (emptyStatus\<lparr>stPhase := ''Paused''\<rparr>)\<rparr>) w0
     = (None,
        emit (PatchSchedule ''default'' ''s1'' jsonPatchType
               [PatchOperation PatchReplaceOp ''/status'' (Some (emptyStatus\<lparr>stPhase := ''Paused''\<rparr>))] None)
          (emit (GetSchedule ''default/s1'') w0))"
  "updateScheduleStatus exEnvPatchFails (exDisabled\<lparr>schStatus := Some (emptyStatus\<lparr>stPhase := ''Paused''\<rparr>)\<rparr>) w0
     = (Some (GoError KindOther ''conflict''),
        emit (PatchSchedule ''default'' ''s1'' jsonPatchType
               [PatchOperation PatchReplaceOp ''/status'' (Some (emptyStatus\<lparr>stPhase := ''Paused''\<rparr>))]
               (Some (GoError KindOther ''conflict'')))
          (emit (GetSchedule ''default/s1'') w0))"
  by (simp_all add: updateScheduleStatus_def exDisabled_facts Let_def exEnvStored_def exEnvPatchFails_def
      exEnv_def exStoredActive_def statusEqual_fields emptyStatus_def)

theorem disabled_schedule_pauses_without_snapshot_calls_witness:
  "cronParse exEnvStored (specSchedule (schSpec exDisabled)) = Inr everyMinute
   \<and> specDisabled (schSpec exDisabled)
   \<and> fst (updateVMSnapshotSchedule exEnvStored exDisabled w0) = Returned (0, None)
   \<and> schStatus (fst (snd (updateVMSnapshotSchedule exEnvStored exDisabled w0)))
        = Some (emptyStatus\<lparr>stPhase := ''Paused''\<rparr>)
   \<and> trace (snd (snd (updateVMSnapshotSchedule exEnvStored exDisabled w0)))
        = [GetSchedule ''default/s1'',
           PatchSchedule ''default'' ''s1'' ''application/json-patch+json''
             [PatchOperation ''replace'' ''/status'' (Some (emptyStatus\<lparr>stPhase := ''Paused''\<rparr>))] None]"
  using disabled_schedule_pauses_without_snapshot_calls
          [of exEnvStored exDisabled everyMinute w0, OF exDisabled_facts(1) exDisabled_facts(3)]
        exDisabled_facts(1,3)
  by (simp add: exDisabled_facts(4) exDisabled_write jsonPatchType_def PatchReplaceOp_def)

theorem disabled_schedule_returns_write_error_counterexample:
  "cronParse exEnvPatchFails (specSchedule (schSpec exDisabled)) = Inr everyMinute
   \<and> specDisabled (schSpec exDisabled)
   \<and> fst (updateVMSnapshotSchedule exEnvPatchFails exDisabled w0)
        = Returned (0, Some (GoError KindOther ''conflict''))
   \<and> fst (updateVMSnapshotSchedule exEnvPatchFails exDisabled w0) \<noteq> Returned (0, None)"
  by (simp add: updateVMSnapshotSchedule_disabled [OF exDisabled_facts(2) exDisabled_facts(3)]
      exDisabled_facts exDisabled_write)

section \<open>A cron expression that does not parse\<close>

lemma updateVMSnapshotSchedule_parse_error:
  assumes "cronParse e (specSchedule (schSpec S)) = Inl perr"
  shows "updateVMSnapshotSchedule e S w =
           (let err = errorf (''invalid cron expression: '' @ errorString perr);
                S1 = S\<lparr>schStatus := Some (failedStatus S err (clock e (ticks w)))\<rparr>;
                u = updateScheduleStatus e S1 (w\<lparr>ticks := Suc (ticks w)\<rparr>)
            in case fst u of
                 Some x \<Rightarrow> (Returned (0, Some x), S1, snd u)
               | None \<Rightarrow>
                   (Returned (0, Some err), S1,
                    emit (RecordEvent EventTypeWarning scheduleFailedEvent
                            (''Schedule failed: '' @ errorString err)) (snd u)))"
  using assms
  by (simp add: updateVMSnapshotSchedule_def updateScheduleStatusError_def failedStatus_def timeNow_def
      Let_def case_prod_beta split: option.splits)

lemma parse_error_events:
  assumes "cronParse e (specSchedule (schSpec S)) = Inl perr"
  shows "set (eventReasons (newActions w (snd (snd (updateVMSnapshotSchedule e S w)))))
           \<subseteq> {scheduleFailedEvent}
         \<and> filter isVMLookup (newActions w (snd (snd (updateVMSnapshotSchedule e S w)))) = []
         \<and> createdSnapshots (newActions w (snd (snd (updateVMSnapshotSchedule e S w)))) = []
         \<and> deleteCalls (newActions w (snd (snd (updateVMSnapshotSchedule e S w)))) = []"
proof -
  let ?err = "errorf (''invalid cron expression: '' @ errorString perr)"
  let ?S1 = "S\<lparr>schStatus := Some (failedStatus S ?err (clock e (ticks w)))\<rparr>"
  let ?w1 = "w\<lparr>ticks := Suc (ticks w)\<rparr>"
  from updateScheduleStatus_grows [of ?w1 e ?S1]
  obtain ys where ys: "trace (snd (updateScheduleStatus e ?S1 ?w1)) = trace w @ ys"
      "statusOnly ys" "eventReasons ys = []"
    by (auto simp: grows_def)
  show ?thesis
    using ys
    by (simp add: updateVMSnapshotSchedule_parse_error [OF assms] Let_def newActions_def statusOnly_def
        split: option.splits)
qed

lemma exBadCron_facts:
  "cronParse exEnvStored (specSchedule (schSpec exBadCron))
     = Inl (GoError KindOther ''expected exactly 5 fields'')"
  "scheduleKey (exBadCron\<lparr>schStatus := st\<rparr>) = ''default/s1''"
  "metaNamespace (schMeta exBadCron) = ''default''"
  "metaName (schMeta exBadCron) = ''s1''"
  "schStatus exBadCron = None"
  by (simp_all add: exEnvStored_def exEnv_def exBadCron_def exSchedule_def exSpec_def scheduleKey_def
      emptyMeta_def)

lemma failedStatus_phase [simp]: "stPhase (failedStatus S err t) = ''Failed''"
  by (simp add: failedStatus_def SchedulePhaseFailed_def)

lemma exEnvStored_simps:
  "scheduleGetByKey exEnvStored ''default/s1'' = Inr (Some (ScheduleObj exStoredActive))"
  "generatePatchPayload exEnvStored ops = None"
  "patchSchedule exEnvStored tr ns n t ops = None"
  "clock exEnvStored k = exNow"
  "schStatus exStoredActive = Some (emptyStatus\<lparr>stPhase := ''Active''\<rparr>)"
  by (simp_all add: exEnvStored_def exEnv_def exStoredActive_def)

text \<open>
  C3, on a schedule whose cron expression is \<open>not a cron\<close>, stored and patched without
  trouble. The pass sets the phase to Failed, writes the status, looks no machine up and
  returns the parse error under the prefix \<open>invalid cron expression: \<close>; the one event it
  records carries the reason \<open>ScheduledSnapshotFailed\<close>, not \<open>InvalidCronExpression\<close>.
\<close>

theorem invalid_cron_records_failed_event_not_invalid_cron_event:
  "fst (updateVMSnapshotSchedule exEnvStored exBadCron w0)
     = Returned (0, Some (GoError KindOther ''invalid cron expression: expected exactly 5 fields''))
   \<and> map_option stPhase (schStatus (fst (snd (updateVMSnapshotSchedule exEnvStored exBadCron w0))))
       = Some ''Failed''
   \<and> length (filter isPatch (trace (snd (snd (updateVMSnapshotSchedule exEnvStored exBadCron w0))))) = 1
   \<and> filter isVMLookup (trace (snd (snd (updateVMSnapshotSchedule exEnvStored exBadCron w0)))) = []
   \<and> eventReasons (trace (snd (snd (updateVMSnapshotSchedule exEnvStored exBadCron w0))))
       = [''ScheduledSnapshotFailed'']
   \<and> scheduleInvalidCronEvent
       \<notin> set (eventReasons (trace (snd (snd (updateVMSnapshotSchedule exEnvStored exBadCron w0)))))"
proof -
  let ?err = "errorf (''invalid cron expression: '' @ errorString (GoError KindOther ''expected exactly 5 fields''))"
  let ?S1 = "exBadCron\<lparr>schStatus := Some (failedStatus exBadCron ?err (clock exEnvStored (ticks w0)))\<rparr>"
  let ?w1 = "w0\<lparr>ticks := Suc (ticks w0)\<rparr>"
  have ne: "\<not> statusEqual (schStatus exStoredActive) (schStatus ?S1)"
    by (simp add: exEnvStored_simps statusEqual_fields)
  have u: "updateScheduleStatus exEnvStored ?S1 ?w1 =
             (None, emit (PatchSchedule ''default'' ''s1'' jsonPatchType
                            [PatchOperation PatchReplaceOp ''/status'' (schStatus ?S1)] None)
                      (emit (GetSchedule ''default/s1'') ?w1))"
    using ne
    by (simp add: updateScheduleStatus_def Let_def exBadCron_facts exEnvStored_simps)
  have eq: "updateVMSnapshotSchedule exEnvStored exBadCron w0 =
             (Returned (0, Some ?err), ?S1,
              emit (RecordEvent EventTypeWarning scheduleFailedEvent (''Schedule failed: '' @ errorString ?err))
                (emit (PatchSchedule ''default'' ''s1'' jsonPatchType
                         [PatchOperation PatchReplaceOp ''/status'' (schStatus ?S1)] None)
                   (emit (GetSchedule ''default/s1'') ?w1)))"
    by (simp only: updateVMSnapshotSchedule_parse_error [OF exBadCron_facts(1)] Let_def u fst_conv snd_conv
        option.case)
  show ?thesis
    unfolding eq
    by (simp add: errorf_def isPatch_def scheduleFailedEvent_def scheduleInvalidCronEvent_def)
qed

section \<open>Only one place creates snapshots\<close>

lemma onlyBuilt_simps [simp]:
  "onlyBuilt e S []"
  "onlyBuilt e S (xs @ ys) \<longleftrightarrow> onlyBuilt e S xs \<and> onlyBuilt e S ys"
  by (auto simp: onlyBuilt_def)

lemma noCreate_onlyBuilt: "noCreate ys \<Longrightarrow> onlyBuilt e S ys"
  by (simp add: noCreate_def onlyBuilt_def)

lemma buildSnapshot_status [simp]:
  "buildSnapshot e (S\<lparr>schStatus := st\<rparr>) vm t = buildSnapshot e S vm t"
  by (simp add: buildSnapshot_def)

lemma onlyBuilt_status [simp]: "onlyBuilt e (S\<lparr>schStatus := st\<rparr>) = onlyBuilt e S"
  by (simp add: onlyBuilt_def fun_eq_iff)

lemma grows_step:
  "grows Q w w' \<Longrightarrow> grows R w' w'' \<Longrightarrow> (\<And>xs ys. Q xs \<Longrightarrow> R ys \<Longrightarrow> Q (xs @ ys)) \<Longrightarrow> grows Q w w''"
  by (auto simp: grows_def)

lemma noCreate_step: "grows noCreate w w' \<Longrightarrow> grows noCreate w' w'' \<Longrightarrow> grows noCreate w w''"
  by (auto simp: grows_def)

lemma statusOnly_after_noCreate:
  "grows noCreate w w' \<Longrightarrow> grows statusOnly w' w'' \<Longrightarrow> grows noCreate w w''"
  by (auto simp: grows_def dest: statusOnly_noCreate)

lemma noCreate_emit_from:
  "grows noCreate w w' \<Longrightarrow> noCreate [a] \<Longrightarrow> grows noCreate w (emit a w')"
  by (auto simp: grows_def)

lemma getVMsToSnapshot_grows: "grows noCreate w (snd (getVMsToSnapshot e S w))"
  by (simp add: getVMsToSnapshot_def grows_def Let_def
      split: option.splits sum.splits storeObj.splits)

lemma getVMsToSnapshot_ticks [simp]: "ticks (snd (getVMsToSnapshot e S w)) = ticks w"
  by (simp add: getVMsToSnapshot_def Let_def split: option.splits sum.splits storeObj.splits)

lemma deleteLoop_grows: "grows noCreate w w' \<Longrightarrow> grows noCreate w (deleteLoop e ds w')"
proof (induction ds arbitrary: w')
  case Nil
  then show ?case by simp
next
  case (Cons d ds)
  show ?case
    using Cons.prems
    by (auto simp: Let_def split: option.splits intro!: Cons.IH noCreate_emit_from)
qed

lemma applyRetentionForVM_grows:
  "grows noCreate w w' \<Longrightarrow> grows noCreate w (snd (applyRetentionForVM e S vm w'))"
  by (auto simp: applyRetentionForVM_def getScheduledSnapshotsForVM_def timeNow_def Let_def
      split: option.splits outcome.splits intro!: deleteLoop_grows noCreate_emit_from)

lemma retentionLoop_grows:
  "grows noCreate w w' \<Longrightarrow> grows noCreate w (snd (retentionLoop e S vms w'))"
proof (induction vms arbitrary: w')
  case Nil
  then show ?case by simp
next
  case (Cons vm vms)
  have a: "grows noCreate w (snd (applyRetentionForVM e S vm w'))"
    using Cons.prems by (rule applyRetentionForVM_grows)
  show ?case
  proof (cases "applyRetentionForVM e S vm w'")
    case (Pair r w1)
    with a have g: "grows noCreate w w1" by simp
    show ?thesis
      using Pair g Cons.IH [OF g] by (cases r) simp_all
  qed
qed

lemma applyRetentionPolicy_grows:
  "grows noCreate w w' \<Longrightarrow> grows noCreate w (snd (applyRetentionPolicy e S vms w'))"
proof -
  assume a: "grows noCreate w w'"
  have b: "grows noCreate w (snd (retentionLoop e S vms w'))"
    using a by (rule retentionLoop_grows)
  show ?thesis
  proof (cases "retentionLoop e S vms w'")
    case (Pair r w1)
    with b have "grows noCreate w w1" by simp
    then show ?thesis using a Pair
      by (cases r) (simp_all add: applyRetentionPolicy_def split: option.splits)
  qed
qed

lemma retainAndReport_grows:
  assumes "grows noCreate w w'"
  shows "grows noCreate w (snd (snd (retainAndReport e S vms cs w')))"
proof (cases "applyRetentionPolicy e S vms w'")
  case (Pair r w1)
  have g: "grows noCreate w w1"
    using applyRetentionPolicy_grows [OF assms, of e S vms] Pair by simp
  have s: "grows statusOnly w1 (snd (snd (updateScheduleStatusActive e S cs w1)))"
    by (rule updateScheduleStatusActive_grows_from) (simp add: grows_refl)
  show ?thesis
    using Pair g statusOnly_after_noCreate [OF g s]
    by (cases r) (simp_all add: retainAndReport_def)
qed

lemma onlyBuilt_after_noCreate:
  "grows (onlyBuilt e S) w w' \<Longrightarrow> grows noCreate w' w'' \<Longrightarrow> grows (onlyBuilt e S) w w''"
  by (auto simp: grows_def dest: noCreate_onlyBuilt)

lemma onlyBuilt_error:
  "grows (onlyBuilt e S) w w' \<Longrightarrow> grows (onlyBuilt e S) w (snd (snd (updateScheduleStatusError e S' err w')))"
  by (erule onlyBuilt_after_noCreate)
     (rule grows_mono [OF updateScheduleStatusError_grows_from [OF grows_refl]], simp_all add: statusOnly_noCreate)

lemma onlyBuilt_paused:
  "grows (onlyBuilt e S) w w' \<Longrightarrow> grows (onlyBuilt e S) w (snd (snd (updateScheduleStatusPaused e S' w')))"
  by (erule onlyBuilt_after_noCreate)
     (rule grows_mono [OF updateScheduleStatusPaused_grows_from [OF grows_refl]], simp_all add: statusOnly_noCreate)

lemma onlyBuilt_active:
  "grows (onlyBuilt e S) w w' \<Longrightarrow> grows (onlyBuilt e S) w (snd (snd (updateScheduleStatusActive e S' cs w')))"
  by (erule onlyBuilt_after_noCreate)
     (rule grows_mono [OF updateScheduleStatusActive_grows_from [OF grows_refl]], simp_all add: statusOnly_noCreate)

lemma onlyBuilt_retain:
  "grows (onlyBuilt e S) w w' \<Longrightarrow> grows (onlyBuilt e S) w (snd (snd (retainAndReport e S' vms cs w')))"
  by (erule onlyBuilt_after_noCreate) (rule retainAndReport_grows [OF grows_refl], simp)

lemma onlyBuilt_getVMs:
  "grows (onlyBuilt e S) w w' \<Longrightarrow> grows (onlyBuilt e S) w (snd (getVMsToSnapshot e S' w'))"
  by (erule onlyBuilt_after_noCreate) (rule getVMsToSnapshot_grows)

lemma onlyBuilt_emit:
  "grows (onlyBuilt e S) w w' \<Longrightarrow> noCreate [a] \<Longrightarrow> grows (onlyBuilt e S) w (emit a w')"
  by (auto simp: grows_def dest: noCreate_onlyBuilt)

lemma onlyBuilt_create:
  "grows (onlyBuilt e S) w w' \<Longrightarrow>
   grows (onlyBuilt e S) w (snd (createScheduledSnapshots e (S\<lparr>schStatus := st\<rparr>) vms w'))"
proof -
  assume a: "grows (onlyBuilt e S) w w'"
  from createScheduledSnapshots_grows [of e "S\<lparr>schStatus := st\<rparr>" vms w']
  have "grows (onlyBuilt e S) w' (snd (createScheduledSnapshots e (S\<lparr>schStatus := st\<rparr>) vms w'))"
    by (auto simp: grows_def onlyBuilt_def)
  with a show ?thesis by (auto simp: grows_def)
qed

text \<open>Whatever a pass creates, \<open>buildSnapshot\<close> has made for the schedule of the pass.\<close>

lemma pass_creates_only_built:
  "grows (onlyBuilt e S) w (snd (snd (updateVMSnapshotSchedule e S w)))"
proof -
  have r: "grows (onlyBuilt e S) w w"
    by (simp add: grows_refl)
  show ?thesis
    unfolding updateVMSnapshotSchedule_def Let_def case_prod_beta timeNow_def
    by (auto split: sum.splits option.splits
        intro!: onlyBuilt_error onlyBuilt_paused onlyBuilt_active onlyBuilt_retain onlyBuilt_emit
                onlyBuilt_create onlyBuilt_getVMs r)
qed

section \<open>When a pass fires\<close>

lemma getVMsToSnapshot_status [simp]:
  "getVMsToSnapshot e (S\<lparr>schStatus := st\<rparr>) w = getVMsToSnapshot e S w"
  by (simp add: getVMsToSnapshot_def Let_def cong: option.case_cong sum.case_cong if_cong)

lemma noCreate_failureLines: "noCreate ys \<Longrightarrow> failureLines ys = []"
proof (induction ys)
  case Nil
  show ?case by simp
next
  case (Cons a ys)
  then show ?case
    by (cases a) (simp_all add: failureLines_def failureLineOf_def noCreate_def createdSnapshots_def createdBy_def)
qed

lemma lastSnapshotTimeOf_error [simp]:
  "lastSnapshotTimeOf (fst (snd (updateScheduleStatusError e S err w))) = lastSnapshotTimeOf S"
  by (simp add: updateScheduleStatusError_def lastSnapshotTimeOf_def timeNow_def Let_def case_prod_beta
      split: option.splits)

lemma lastSnapshotTimeOf_active [simp]:
  "lastSnapshotTimeOf (fst (snd (updateScheduleStatusActive e S cs w))) = lastSnapshotTimeOf S"
  by (simp add: updateScheduleStatusActive_def lastSnapshotTimeOf_def timeNow_def Let_def case_prod_beta
      split: option.splits)

lemma lastSnapshotTimeOf_retain [simp]:
  "lastSnapshotTimeOf (fst (snd (retainAndReport e S vms cs w))) = lastSnapshotTimeOf S"
  by (simp add: retainAndReport_def case_prod_beta split: outcome.splits)

lemma phaseOf_error:
  "schStatus S \<noteq> None \<Longrightarrow> phaseOf (fst (snd (updateScheduleStatusError e S err w))) = ''Failed''"
  by (auto simp: updateScheduleStatusError_def phaseOf_def timeNow_def Let_def case_prod_beta
      SchedulePhaseFailed_def split: option.splits)

lemma updateVMSnapshotSchedule_targets:
  assumes "cronParse e (specSchedule (schSpec S)) = Inr cs"
      and "\<not> specDisabled (schSpec S)"
      and "getVMsToSnapshot e S w = (Inr vms, w1)"
      and "vms \<noteq> []"
  shows "updateVMSnapshotSchedule e S w =
           (let S0 = S\<lparr>schStatus := Some (initStatus S)\<rparr>;
                now = clock e (ticks w1);
                w2 = w1\<lparr>ticks := Suc (ticks w1)\<rparr>;
                nextRun = (case stLastSnapshotTime (initStatus S) of Some t \<Rightarrow> cs t | None \<Rightarrow> cs (now - second))
            in if nextRun \<le> now
               then
                 (let c = createScheduledSnapshots e S0 vms w2;
                      S1 = S\<lparr>schStatus := Some ((initStatus S)\<lparr>stLastSnapshotTime := Some now\<rparr>)\<rparr>
                  in case fst c of
                       Some x \<Rightarrow>
                         if specFailurePolicy (schSpec S) = Some ScheduleFailurePolicyPause
                         then updateScheduleStatusError e S0 x (snd c)
                         else retainAndReport e S1 vms cs
                                (emit (RecordEvent EventTypeWarning scheduleFailedEvent
                                         (''Failed to create snapshot: '' @ errorString x)) (snd c))
                     | None \<Rightarrow> retainAndReport e S1 vms cs (snd c))
               else retainAndReport e S0 vms cs w2)"
proof -
  have le: "\<And>a b::int. (a < b \<or> b = a) = (a \<le> b)"
    by auto
  show ?thesis
    using assms
    by (simp add: updateVMSnapshotSchedule_def initStatus_def [symmetric] timeNow_def Let_def
        case_prod_beta le split: option.splits)
qed

lemma lastSnapshotTimeOf_init: "stLastSnapshotTime (initStatus S) = lastSnapshotTimeOf S"
  by (simp add: lastSnapshotTimeOf_def initStatus_def emptyStatus_def split: option.splits)

lemma lastSnapshotTimeOf_update [simp]:
  "lastSnapshotTimeOf (S\<lparr>schStatus := Some st\<rparr>) = stLastSnapshotTime st"
  by (simp add: lastSnapshotTimeOf_def)

lemma tail_after_create:
  "grows noCreate w' (snd (snd (updateScheduleStatusError e S err w')))"
  "grows noCreate w' (snd (snd (retainAndReport e S vms cs w')))"
  "grows noCreate w' (snd (snd (retainAndReport e S vms cs (emit (RecordEvent t rs m) w'))))"
proof -
  show "grows noCreate w' (snd (snd (updateScheduleStatusError e S err w')))"
    by (rule grows_mono [OF updateScheduleStatusError_grows_from [OF grows_refl]])
       (simp_all add: statusOnly_noCreate)
  show "grows noCreate w' (snd (snd (retainAndReport e S vms cs w')))"
    by (rule retainAndReport_grows [OF grows_refl]) simp
  show "grows noCreate w' (snd (snd (retainAndReport e S vms cs (emit (RecordEvent t rs m) w'))))"
    by (rule retainAndReport_grows) (simp add: grows_def)
qed

text \<open>
  C1, as the code has it. In a pass with a cron expression that parses, a schedule that is
  not disabled and a non-empty list of target machines, let \<open>now\<close> be the clock reading
  of the pass and \<open>nextRun\<close> be \<open>cron.Next(lastSnapshotTime)\<close> when \<open>lastSnapshotTime\<close> is
  set and \<open>cron.Next(now - 1s)\<close> otherwise. The pass issues create calls, one for each
  machine, exactly when \<open>nextRun \<le> now\<close>. When it fires, \<open>lastSnapshotTime\<close> becomes
  \<open>now\<close> unless a create failed under the failure policy Pause: then the pass ends in
  phase Failed and leaves \<open>lastSnapshotTime\<close> as it was. When it does not fire,
  \<open>lastSnapshotTime\<close> stays as it was.
\<close>

theorem pass_fires_iff_next_run_reached:
  assumes parse: "cronParse e (specSchedule (schSpec S)) = Inr cs"
      and enabled: "\<not> specDisabled (schSpec S)"
      and targets: "getVMsToSnapshot e S w = (Inr vms, w1)"
      and nonempty: "vms \<noteq> []"
      and now: "now = clock e (ticks w)"
      and nextRun: "nextRun = (case lastSnapshotTimeOf S of Some t \<Rightarrow> cs t | None \<Rightarrow> cs (now - second))"
      and final: "S' = fst (snd (updateVMSnapshotSchedule e S w))"
      and new: "new = newActions w (snd (snd (updateVMSnapshotSchedule e S w)))"
  shows "(createdSnapshots new \<noteq> [] \<longleftrightarrow> nextRun \<le> now)
         \<and> (nextRun \<le> now \<longrightarrow> length (createdSnapshots new) = length vms)
         \<and> (nextRun \<le> now
              \<and> (failureLines new = [] \<or> specFailurePolicy (schSpec S) \<noteq> Some ''Pause'')
              \<longrightarrow> lastSnapshotTimeOf S' = Some now)
         \<and> (nextRun \<le> now
              \<and> failureLines new \<noteq> [] \<and> specFailurePolicy (schSpec S) = Some ''Pause''
              \<longrightarrow> lastSnapshotTimeOf S' = lastSnapshotTimeOf S \<and> phaseOf S' = ''Failed'')
         \<and> (\<not> nextRun \<le> now \<longrightarrow> lastSnapshotTimeOf S' = lastSnapshotTimeOf S)"
proof -
  let ?S0 = "S\<lparr>schStatus := Some (initStatus S)\<rparr>"
  let ?S1 = "S\<lparr>schStatus := Some ((initStatus S)\<lparr>stLastSnapshotTime := Some (clock e (ticks w1))\<rparr>)\<rparr>"
  let ?w2 = "w1\<lparr>ticks := Suc (ticks w1)\<rparr>"
  let ?r = "updateVMSnapshotSchedule e S w"
  have t1: "ticks w1 = ticks w"
    using getVMsToSnapshot_ticks [of e S w] targets by simp
  have g1: "grows noCreate w w1"
    using getVMsToSnapshot_grows [of w e S] targets by simp
  then obtain xs where xs: "trace w1 = trace w @ xs" "noCreate xs"
    by (auto simp: grows_def)
  have now1: "now = clock e (ticks w1)"
    using now t1 by simp
  have nr: "nextRun = (case stLastSnapshotTime (initStatus S) of Some t \<Rightarrow> cs t
                       | None \<Rightarrow> cs (clock e (ticks w1) - second))"
    unfolding nextRun now1 lastSnapshotTimeOf_init ..
  have cond: "((case stLastSnapshotTime (initStatus S) of Some t \<Rightarrow> cs t
                | None \<Rightarrow> cs (clock e (ticks w1) - second)) \<le> clock e (ticks w1))
              = (nextRun \<le> now)"
    unfolding nr now1 ..
  note eq = updateVMSnapshotSchedule_targets [OF parse enabled targets nonempty]
  show ?thesis
  proof (cases "nextRun \<le> now")
    case False
    have r: "?r = retainAndReport e ?S0 vms cs ?w2"
      unfolding eq Let_def cond using False by simp
    have "grows noCreate w1 (snd (snd ?r))"
      unfolding r using retainAndReport_grows [of ?w2 ?w2 e ?S0 vms cs]
      by (simp add: grows_refl)
    then obtain zs where zs: "trace (snd (snd ?r)) = trace w1 @ zs" "noCreate zs"
      by (auto simp: grows_def)
    have n: "new = xs @ zs"
      using new xs(1) zs(1) by (simp add: newActions_def)
    have c: "createdSnapshots new = []"
      using xs(2) zs(2) by (simp add: n noCreate_def)
    have l: "lastSnapshotTimeOf S' = lastSnapshotTimeOf S"
      using final by (simp add: r lastSnapshotTimeOf_init)
    show ?thesis using False c l by simp
  next
    case True
    let ?c = "createScheduledSnapshots e ?S0 vms ?w2"
    from createScheduledSnapshots_grows [of e ?S0 vms ?w2]
    obtain ys where ys: "trace (snd ?c) = trace w1 @ ys"
        "fst ?c = (if failureLines ys = [] then None
                   else Some (errorf (''failed to create snapshots: '' @ joinStrings (failureLines ys) ''; '')))"
        "length (createdSnapshots ys) = length vms"
      by auto
    have r: "?r = (case fst ?c of
                     Some x \<Rightarrow>
                       if specFailurePolicy (schSpec S) = Some ScheduleFailurePolicyPause
                       then updateScheduleStatusError e ?S0 x (snd ?c)
                       else retainAndReport e ?S1 vms cs
                              (emit (RecordEvent EventTypeWarning scheduleFailedEvent
                                       (''Failed to create snapshot: '' @ errorString x)) (snd ?c))
                   | None \<Rightarrow> retainAndReport e ?S1 vms cs (snd ?c))"
      unfolding eq Let_def cond using True by simp
    have "grows noCreate (snd ?c) (snd (snd ?r))"
      unfolding r by (simp add: tail_after_create split: option.splits)
    then obtain zs where zs: "trace (snd (snd ?r)) = trace (snd ?c) @ zs" "noCreate zs"
      by (auto simp: grows_def)
    have n: "new = xs @ ys @ zs"
      using new xs(1) ys(1) zs(1) by (simp add: newActions_def)
    have c: "createdSnapshots new = createdSnapshots ys"
      using xs(2) zs(2) by (simp add: n noCreate_def)
    have f: "failureLines new = failureLines ys"
      using xs(2) zs(2) by (simp add: n noCreate_failureLines)
    have ne: "createdSnapshots new \<noteq> []"
      using c ys(3) nonempty by auto
    have ok: "failureLines new = [] \<or> specFailurePolicy (schSpec S) \<noteq> Some ''Pause''
              \<Longrightarrow> lastSnapshotTimeOf S' = Some now"
      using final ys(2) f
      by (auto simp: r now1 ScheduleFailurePolicyPause_def split: if_splits)
    have pause: "failureLines new \<noteq> [] \<Longrightarrow> specFailurePolicy (schSpec S) = Some ''Pause''
              \<Longrightarrow> lastSnapshotTimeOf S' = lastSnapshotTimeOf S \<and> phaseOf S' = ''Failed''"
      using final ys(2) f
      by (simp add: r ScheduleFailurePolicyPause_def lastSnapshotTimeOf_init phaseOf_error)
    show ?thesis using True ne c ys(3) ok pause by simp
  qed
qed

lemma everyMinute_exMinute: "everyMinute (exMinute - second) = exMinute"
  by (simp add: everyMinute_def exMinute_def minute_def second_def)

lemma exTick_facts:
  "cronParse exEnvTick (specSchedule (schSpec exSchedule)) = Inr everyMinute"
  "\<not> specDisabled (schSpec exSchedule)"
  "getVMsToSnapshot exEnvTick exSchedule w0 = (Inr [exVM], emit (GetVM ''default/vmA'') w0)"
  "lastSnapshotTimeOf exSchedule = None"
  "clock exEnvTick n = exMinute"
  "specFailurePolicy (schSpec exSchedule) = None"
  by (simp_all add: exEnvTick_def exEnv_def exSchedule_def exSpec_def getVMsToSnapshot_def Let_def
      emptyMeta_def lastSnapshotTimeOf_def)

theorem pass_fires_iff_next_run_reached_witness:
  "cronParse exEnvTick (specSchedule (schSpec exSchedule)) = Inr everyMinute
   \<and> \<not> specDisabled (schSpec exSchedule)
   \<and> getVMsToSnapshot exEnvTick exSchedule w0 = (Inr [exVM], emit (GetVM ''default/vmA'') w0)
   \<and> [exVM] \<noteq> []
   \<and> lastSnapshotTimeOf exSchedule = None
   \<and> clock exEnvTick (ticks w0) = exMinute
   \<and> everyMinute (exMinute - second) \<le> exMinute
   \<and> length (createdSnapshots (newActions w0 (snd (snd (updateVMSnapshotSchedule exEnvTick exSchedule w0))))) = 1
   \<and> lastSnapshotTimeOf (fst (snd (updateVMSnapshotSchedule exEnvTick exSchedule w0))) = Some exMinute"
proof -
  have ne: "[exVM] \<noteq> []" by simp
  show ?thesis
    using pass_fires_iff_next_run_reached [OF exTick_facts(1) exTick_facts(2) exTick_facts(3) ne refl refl refl refl]
          exTick_facts
    by (simp add: everyMinute_exMinute)
qed

lemma buildSnapshot_name:
  "metaName (snapMeta (buildSnapshot e S vm t))
     = metaName (schMeta S) @ ''-'' @ metaName (vmMeta vm) @ ''-'' @ formatTimestamp t"
  by (simp add: buildSnapshot_def Let_def split: option.splits)

lemma formatTimestamp_exMinute: "formatTimestamp exMinute = ''20240101-000100''"
  by code_simp

lemma exSel_facts:
  "cronParse exEnvSel (specSchedule (schSpec exSelPause)) = Inr everyMinute"
  "\<not> specDisabled (schSpec exSelPause)"
  "getVMsToSnapshot exEnvSel exSelPause w0 = (Inr [exDbA, exDbB], emit ListVMs w0)"
  "initStatus exSelPause = emptyStatus"
  "clock exEnvSel n = exMinute"
  "specFailurePolicy (schSpec exSelPause) = Some ScheduleFailurePolicyPause"
  "metaName (schMeta exSelPause) = ''s1''"
  by (simp_all add: exEnvSel_def exEnv_def exSelPause_def exSchedule_def exSpec_def getVMsToSnapshot_def
      Let_def emptyMeta_def initStatus_def exDbA_def exDbB_def labelsSet_def ScheduleFailurePolicyPause_def)

lemma exSel_create:
  "createSnapshot exEnvSel tr (buildSnapshot exEnvSel S exDbA t) = None"
  "createSnapshot exEnvSel tr (buildSnapshot exEnvSel S exDbB t) = Some (GoError KindOther ''boom'')"
  "metaName (vmMeta exDbA) = ''vmA''" "metaName (vmMeta exDbB) = ''vmB''"
  by (simp_all add: exEnvSel_def exDbA_def exDbB_def emptyMeta_def)

lemma exSel_created:
  "fst (createScheduledSnapshots exEnvSel S [exDbA, exDbB] w) =
     Some (GoError KindOther ''failed to create snapshots: VM vmB: boom'')"
  "trace (snd (createScheduledSnapshots exEnvSel S [exDbA, exDbB] w)) =
     trace w @
     [CreateSnapshot (buildSnapshot exEnvSel S exDbA exMinute) None,
      RecordEvent EventTypeNormal scheduleCreateSnapshotEvent
        (''Created snapshot '' @ metaName (snapMeta (buildSnapshot exEnvSel S exDbA exMinute)) @ '' for VM vmA''),
      CreateSnapshot (buildSnapshot exEnvSel S exDbB exMinute) (Some (GoError KindOther ''boom''))]"
  by (simp_all add: createScheduledSnapshots_def createSnapshotForVM_eq Let_def exSel_create
      exSel_facts(5) errorf_def)

text \<open>
  C1 does not hold as stated. Two machines match the selector, the clock stands at the
  cron instant, the failure policy is Pause; the snapshot of \<open>vmA\<close> is created and the
  create call for \<open>vmB\<close> fails. The pass has fired, and \<open>lastSnapshotTime\<close> is not set.
\<close>

theorem pause_policy_leaves_last_snapshot_time_counterexample:
  "cronParse exEnvSel (specSchedule (schSpec exSelPause)) = Inr everyMinute
   \<and> \<not> specDisabled (schSpec exSelPause)
   \<and> getVMsToSnapshot exEnvSel exSelPause w0 = (Inr [exDbA, exDbB], emit ListVMs w0)
   \<and> lastSnapshotTimeOf exSelPause = None
   \<and> everyMinute (clock exEnvSel (ticks w0) - second) \<le> clock exEnvSel (ticks w0)
   \<and> map (\<lambda>s. metaName (snapMeta s))
         (createdSnapshots (trace (snd (snd (updateVMSnapshotSchedule exEnvSel exSelPause w0)))))
       = [''s1-vmA-20240101-000100'', ''s1-vmB-20240101-000100'']
   \<and> CreateSnapshot (buildSnapshot exEnvSel exSelPause exDbA exMinute) None
       \<in> set (trace (snd (snd (updateVMSnapshotSchedule exEnvSel exSelPause w0))))
   \<and> lastSnapshotTimeOf (fst (snd (updateVMSnapshotSchedule exEnvSel exSelPause w0))) = None
   \<and> clock exEnvSel (ticks w0) = exMinute
   \<and> phaseOf (fst (snd (updateVMSnapshotSchedule exEnvSel exSelPause w0))) = ''Failed''"
proof -
  let ?S0 = "exSelPause\<lparr>schStatus := Some (initStatus exSelPause)\<rparr>"
  let ?w2 = "(emit ListVMs w0)\<lparr>ticks := Suc (ticks (emit ListVMs w0))\<rparr>"
  let ?c = "createScheduledSnapshots exEnvSel ?S0 [exDbA, exDbB] ?w2"
  let ?x = "GoError KindOther ''failed to create snapshots: VM vmB: boom''"
  let ?r = "updateVMSnapshotSchedule exEnvSel exSelPause w0"
  have ne: "[exDbA, exDbB] \<noteq> []" by simp
  have r: "?r = updateScheduleStatusError exEnvSel ?S0 ?x (snd ?c)"
    unfolding updateVMSnapshotSchedule_targets [OF exSel_facts(1) exSel_facts(2) exSel_facts(3) ne] Let_def
    by (simp add: exSel_created(1) exSel_facts everyMinute_exMinute emptyStatus_def)
  have "grows statusOnly (snd ?c) (snd (snd ?r))"
    unfolding r by (rule updateScheduleStatusError_grows_from) (simp add: grows_refl)
  then obtain zs where zs: "trace (snd (snd ?r)) = trace (snd ?c) @ zs" "statusOnly zs"
    by (auto simp: grows_def)
  have last: "lastSnapshotTimeOf (fst (snd ?r)) = None"
    by (simp add: r exSel_facts emptyStatus_def)
  have ph: "phaseOf (fst (snd ?r)) = ''Failed''"
    unfolding r by (rule phaseOf_error) simp
  have l0: "lastSnapshotTimeOf exSelPause = None"
    by (simp add: lastSnapshotTimeOf_def exSelPause_def exSchedule_def)
  show ?thesis
    using zs(2) last ph l0
    by (simp add: zs(1) exSel_created(2) exSel_facts everyMinute_exMinute statusOnly_def
        buildSnapshot_name formatTimestamp_exMinute exSel_create)
qed

section \<open>What a created snapshot carries\<close>

lemma buildSnapshot_failureDeadline:
  "snapFailureDeadline (snapSpec (buildSnapshot e S vm t))
     = (case specSnapshotTemplate (schSpec S) of None \<Rightarrow> None | Some tmpl \<Rightarrow> tmplFailureDeadline tmpl)"
  by (simp add: buildSnapshot_def Let_def split: option.splits)

lemma buildSnapshot_meta:
  "metaNamespace (snapMeta (buildSnapshot e S vm t)) = metaNamespace (schMeta S)"
  "metaOwnerReferences (snapMeta (buildSnapshot e S vm t))
     = [\<lparr>orAPIVersion = snapshotGroupVersion e, orKind = ''VirtualMachineSnapshotSchedule'',
         orName = metaName (schMeta S), orUID = metaUID (schMeta S), orController = Some True\<rparr>]"
  "metaLabels (snapMeta (buildSnapshot e S vm t))
     = Some ([scheduleNameLabel \<mapsto> metaName (schMeta S),
              scheduleNamespaceLabel \<mapsto> metaNamespace (schMeta S),
              scheduledSnapshotLabel \<mapsto> ''true'',
              snapshotSourceNameLabel \<mapsto> metaName (vmMeta vm)]
             ++ (case specSnapshotTemplate (schSpec S) of
                   None \<Rightarrow> Map.empty
                 | Some tmpl \<Rightarrow> (case tmplLabels tmpl of None \<Rightarrow> Map.empty | Some ls \<Rightarrow> ls)))"
  by (simp_all add: buildSnapshot_def Let_def split: option.splits)

lemma exTemplate_facts:
  "cronParse exEnvTick (specSchedule (schSpec (exWithTemplate tm))) = Inr everyMinute"
  "\<not> specDisabled (schSpec (exWithTemplate tm))"
  "getVMsToSnapshot exEnvTick (exWithTemplate tm) w0 = (Inr [exVM], emit (GetVM ''default/vmA'') w0)"
  "initStatus (exWithTemplate tm) = emptyStatus"
  "specFailurePolicy (schSpec (exWithTemplate tm)) = None"
  "specSnapshotTemplate (schSpec (exWithTemplate tm)) = tm"
  "metaName (schMeta (exWithTemplate tm)) = ''s1''"
  "metaNamespace (schMeta (exWithTemplate tm)) = ''default''"
  "metaUID (schMeta (exWithTemplate tm)) = ''uid-1''"
  "metaName (vmMeta exVM) = ''vmA''"
  by (simp_all add: exWithTemplate_def exEnvTick_def exEnv_def exSchedule_def exSpec_def
      getVMsToSnapshot_def Let_def emptyMeta_def initStatus_def exVM_def)

lemma exTick_created:
  "fst (createScheduledSnapshots exEnvTick S [exVM] w) = None"
  "trace (snd (createScheduledSnapshots exEnvTick S [exVM] w)) =
     trace w @
     [CreateSnapshot (buildSnapshot exEnvTick S exVM exMinute) None,
      RecordEvent EventTypeNormal scheduleCreateSnapshotEvent
        (''Created snapshot '' @ metaName (snapMeta (buildSnapshot exEnvTick S exVM exMinute))
           @ '' for VM '' @ metaName (vmMeta exVM))]"
  by (simp_all add: createScheduledSnapshots_def createSnapshotForVM_eq Let_def exEnvTick_def exEnv_def)

text \<open>The pass over the example schedule at the full minute creates one snapshot.\<close>

lemma exTemplate_pass_created:
  "createdSnapshots (newActions w0 (snd (snd (updateVMSnapshotSchedule exEnvTick (exWithTemplate tm) w0))))
     = [buildSnapshot exEnvTick (exWithTemplate tm) exVM exMinute]"
proof -
  let ?Sch = "exWithTemplate tm"
  let ?S0 = "?Sch\<lparr>schStatus := Some (initStatus ?Sch)\<rparr>"
  let ?S1 = "?Sch\<lparr>schStatus := Some ((initStatus ?Sch)\<lparr>stLastSnapshotTime := Some exMinute\<rparr>)\<rparr>"
  let ?w1 = "emit (GetVM ''default/vmA'') w0"
  let ?w2 = "?w1\<lparr>ticks := Suc (ticks ?w1)\<rparr>"
  let ?c = "createScheduledSnapshots exEnvTick ?S0 [exVM] ?w2"
  let ?r = "updateVMSnapshotSchedule exEnvTick ?Sch w0"
  have ne: "[exVM] \<noteq> []" by simp
  have r: "?r = retainAndReport exEnvTick ?S1 [exVM] everyMinute (snd ?c)"
    unfolding updateVMSnapshotSchedule_targets [OF exTemplate_facts(1) [of tm] exTemplate_facts(2) [of tm] exTemplate_facts(3) [of tm] ne] Let_def
    by (simp add: exTick_created(1) exTemplate_facts exTick_facts(5) everyMinute_exMinute emptyStatus_def)
  have "grows noCreate (snd ?c) (snd (snd ?r))"
    unfolding r by (rule tail_after_create)
  then obtain zs where zs: "trace (snd (snd ?r)) = trace (snd ?c) @ zs" "noCreate zs"
    by (auto simp: grows_def)
  show ?thesis
    using zs(2) by (simp add: newActions_def zs(1) exTick_created(2) noCreate_def)
qed

lemma exTemplate_pass_created_trace:
  "createdSnapshots (trace (snd (snd (updateVMSnapshotSchedule exEnvTick (exWithTemplate tm) w0))))
     = [buildSnapshot exEnvTick (exWithTemplate tm) exVM exMinute]"
  using exTemplate_pass_created [of tm] by (simp add: newActions_def)

text \<open>
  C9, as the code has it. Every snapshot that a pass creates carries the failure deadline
  of the schedule's template: none when the schedule has no template or the template
  sets none, and the template's value otherwise. The pass stamps no default.
\<close>

theorem created_snapshot_has_the_templates_failure_deadline:
  "\<forall>s \<in> set (createdSnapshots (newActions w (snd (snd (updateVMSnapshotSchedule e S w))))).
     snapFailureDeadline (snapSpec s)
       = (case specSnapshotTemplate (schSpec S) of None \<Rightarrow> None | Some tmpl \<Rightarrow> tmplFailureDeadline tmpl)"
proof -
  have "onlyBuilt e S (newActions w (snd (snd (updateVMSnapshotSchedule e S w))))"
    by (rule grows_newActions [OF pass_creates_only_built])
  then show ?thesis
    by (auto simp: onlyBuilt_def buildSnapshot_failureDeadline)
qed

theorem created_snapshot_has_the_templates_failure_deadline_witness:
  "buildSnapshot exEnvTick (exWithTemplate (Some exTemplateTenMinutes)) exVM exMinute
     \<in> set (createdSnapshots (newActions w0
              (snd (snd (updateVMSnapshotSchedule exEnvTick (exWithTemplate (Some exTemplateTenMinutes)) w0)))))
   \<and> snapFailureDeadline (snapSpec (buildSnapshot exEnvTick (exWithTemplate (Some exTemplateTenMinutes))
                                       exVM exMinute))
       = Some (10 * minute)"
  using created_snapshot_has_the_templates_failure_deadline
          [of w0 exEnvTick "exWithTemplate (Some exTemplateTenMinutes)"]
  by (simp add: exTemplate_pass_created_trace buildSnapshot_failureDeadline exTemplate_facts
      exTemplateTenMinutes_def)

theorem no_default_failure_deadline_is_stamped_counterexample:
  "specSnapshotTemplate (schSpec (exWithTemplate None)) = None
   \<and> map (\<lambda>s. snapFailureDeadline (snapSpec s))
        (createdSnapshots (newActions w0 (snd (snd (updateVMSnapshotSchedule exEnvTick (exWithTemplate None) w0)))))
       = [None]
   \<and> DefaultFailureDeadline = 5 * minute"
  by (simp add: exTemplate_pass_created_trace exTemplate_facts buildSnapshot_failureDeadline
      DefaultFailureDeadline_def)

section \<open>Template labels are merged over the labels of the controller\<close>

text \<open>
  What holds of every snapshot that \<open>buildSnapshot\<close> makes, and so, by
  \<open>pass_creates_only_built\<close>, of every snapshot that a pass creates: the name is made of the
  schedule's name, the machine's name and the formatted clock reading; namespace and owner
  reference are the schedule's; and each of the four labels of the controller has the
  controller's value as long as the template's labels do not use its key.
\<close>

lemma built_snapshot_identity:
  assumes "ls = (case specSnapshotTemplate (schSpec S) of
                   None \<Rightarrow> Map.empty
                 | Some tmpl \<Rightarrow> (case tmplLabels tmpl of None \<Rightarrow> Map.empty | Some m \<Rightarrow> m))"
      and "s = buildSnapshot e S vm t"
  shows "metaName (snapMeta s)
           = metaName (schMeta S) @ ''-'' @ metaName (vmMeta vm) @ ''-'' @ formatTimestamp t"
    and "metaNamespace (snapMeta s) = metaNamespace (schMeta S)"
    and "map orName (metaOwnerReferences (snapMeta s)) = [metaName (schMeta S)]"
    and "map orController (metaOwnerReferences (snapMeta s)) = [Some True]"
    and "ls scheduleNameLabel = None
           \<Longrightarrow> goIndex (metaLabels (snapMeta s)) scheduleNameLabel = metaName (schMeta S)"
    and "ls scheduleNamespaceLabel = None
           \<Longrightarrow> goIndex (metaLabels (snapMeta s)) scheduleNamespaceLabel = metaNamespace (schMeta S)"
    and "ls scheduledSnapshotLabel = None
           \<Longrightarrow> goIndex (metaLabels (snapMeta s)) scheduledSnapshotLabel = ''true''"
    and "ls snapshotSourceNameLabel = None
           \<Longrightarrow> goIndex (metaLabels (snapMeta s)) snapshotSourceNameLabel = metaName (vmMeta vm)"
  using assms label_constants_distinct
  by (auto simp: buildSnapshot_name buildSnapshot_meta goIndex_def map_add_def split: option.splits)

text \<open>
  C5, on a schedule whose template has the label \<open>schedule-name=other\<close>. The pass at the
  full minute creates one snapshot, named and owned as the claim says, whose
  \<open>schedule-name\<close> label reads \<open>other\<close> and not the schedule's name \<open>s1\<close>: the template's
  labels are written over the controller's. The schedule does not count this snapshot as its own.
\<close>

theorem template_label_overwrites_schedule_name_label:
  "tmplLabels exTemplateOverride = Some [scheduleNameLabel \<mapsto> ''other'']
   \<and> metaName (schMeta (exWithTemplate (Some exTemplateOverride))) = ''s1''
   \<and> createdSnapshots (trace (snd (snd (updateVMSnapshotSchedule exEnvTick
                                           (exWithTemplate (Some exTemplateOverride)) w0))))
       = [buildSnapshot exEnvTick (exWithTemplate (Some exTemplateOverride)) exVM exMinute]
   \<and> metaName (snapMeta (buildSnapshot exEnvTick (exWithTemplate (Some exTemplateOverride)) exVM exMinute))
       = ''s1-vmA-20240101-000100''
   \<and> metaNamespace (snapMeta (buildSnapshot exEnvTick (exWithTemplate (Some exTemplateOverride)) exVM exMinute))
       = ''default''
   \<and> map orController
         (metaOwnerReferences (snapMeta (buildSnapshot exEnvTick (exWithTemplate (Some exTemplateOverride))
                                           exVM exMinute)))
       = [Some True]
   \<and> goIndex (metaLabels (snapMeta (buildSnapshot exEnvTick (exWithTemplate (Some exTemplateOverride))
                                        exVM exMinute))) scheduleNameLabel
       = ''other''
   \<and> goIndex (metaLabels (snapMeta (buildSnapshot exEnvTick (exWithTemplate (Some exTemplateOverride))
                                        exVM exMinute))) snapshotSourceNameLabel
       = ''vmA''
   \<and> \<not> countsForSchedule (exWithTemplate (Some exTemplateOverride))
          (SnapshotObj (buildSnapshot exEnvTick (exWithTemplate (Some exTemplateOverride)) exVM exMinute))"
  using label_constants_distinct
  by (simp add: exTemplate_pass_created_trace buildSnapshot_name buildSnapshot_meta exTemplate_facts
      formatTimestamp_exMinute exTemplateOverride_def goIndex_def map_add_def countsForSchedule_def)

section \<open>Retention: which snapshots are deleted\<close>

lemma containsName_iff: "containsName ds s \<longleftrightarrow> snapName s \<in> snapName ` set ds"
  by (auto simp: containsName_def snapName_def)

lemma appendMissing_distinct:
  "distinct (map snapName (ds @ ss)) \<Longrightarrow> appendMissing ss ds = ds @ ss"
proof (induction ss arbitrary: ds)
  case Nil
  show ?case by simp
next
  case (Cons s ss)
  have notin: "\<not> containsName ds s"
    using Cons.prems by (auto simp: containsName_iff)
  have "distinct (map snapName ((ds @ [s]) @ ss))"
    using Cons.prems by simp
  then have "appendMissing ss (ds @ [s]) = (ds @ [s]) @ ss"
    by (rule Cons.IH)
  then show ?case using notin by simp
qed

lemma containsName_member:
  assumes "distinct (map snapName xs)" and "set ds \<subseteq> set xs" and "s \<in> set xs"
  shows "containsName ds s \<longleftrightarrow> s \<in> set ds"
proof
  assume "containsName ds s"
  then obtain d where d: "d \<in> set ds" "snapName d = snapName s"
    by (auto simp: containsName_iff)
  have "inj_on snapName (set xs)"
    using assms(1) by (simp add: distinct_map)
  with d assms(2,3) have "d = s"
    by (auto dest: inj_onD)
  with d show "s \<in> set ds" by simp
next
  assume "s \<in> set ds"
  then show "containsName ds s" by (auto simp: containsName_iff)
qed

lemma remaining_filter:
  assumes "distinct (map snapName xs)" and "set ds \<subseteq> set xs"
  shows "filter (\<lambda>s. \<not> containsName ds s) xs = filter (\<lambda>s. s \<notin> set ds) xs"
  by (rule filter_cong [OF refl]) (simp add: containsName_member [OF assms])

text \<open>The snapshots past the age limit, in the order of the sorted list.\<close>

lemma snapshotsToDelete_distinct:
  assumes d: "distinct (map snapName xs)"
      and nonneg: "\<And>n. retMaxCount r = Some n \<Longrightarrow> 0 \<le> n"
      and ex: "expired = (case retExpires r of
                           None \<Rightarrow> []
                         | Some limit \<Rightarrow> filter (\<lambda>s. timeSub now (snapCreated s) > limit) xs)"
      and re: "remaining = filter (\<lambda>s. s \<notin> set expired) xs"
  shows "snapshotsToDelete r now xs =
           Returned (expired @ (case retMaxCount r of
                                  None \<Rightarrow> []
                                | Some n \<Rightarrow> take (length remaining - nat n) remaining))"
proof -
  have sub: "set expired \<subseteq> set xs"
    using ex by (auto split: option.splits)
  have ex': "(case retExpires r of
                None \<Rightarrow> []
              | Some limit \<Rightarrow>
                  filter (\<lambda>snapshot. timeSub now (metaCreationTimestamp (snapMeta snapshot)) > limit) xs)
             = expired"
    using ex by (simp add: snapCreated_def split: option.splits)
  have rem: "filter (\<lambda>s. \<not> containsName expired s) xs = remaining"
    using remaining_filter [OF d sub] re by simp
  show ?thesis
  proof (cases "retMaxCount r")
    case None
    then show ?thesis by (simp add: snapshotsToDelete_def ex' Let_def)
  next
    case (Some n)
    have n0: "0 \<le> n" using nonneg Some by simp
    let ?k = "length remaining - nat n"
    have dis: "distinct (map snapName (expired @ take ?k remaining))"
    proof -
      have dx: "distinct (map snapName expired)"
        using d ex by (auto simp: distinct_map_filter split: option.splits)
      have dr: "distinct (map snapName remaining)"
        using d re by (simp add: distinct_map_filter)
      have dt: "distinct (map snapName (take ?k remaining))"
        using dr by (simp add: take_map [symmetric] distinct_take)
      have inj: "inj_on snapName (set xs)"
        using d by (simp add: distinct_map)
      have disj: "snapName ` set expired \<inter> snapName ` set (take ?k remaining) = {}"
      proof (rule ccontr)
        assume "snapName ` set expired \<inter> snapName ` set (take ?k remaining) \<noteq> {}"
        then obtain a b where ab: "a \<in> set expired" "b \<in> set (take ?k remaining)" "snapName a = snapName b"
          by auto
        have b: "b \<in> set remaining" using ab(2) by (rule in_set_takeD)
        then have bx: "b \<in> set xs" "b \<notin> set expired" using re by auto
        have "a \<in> set xs" using ab(1) sub by auto
        with inj bx(1) ab(3) have "a = b" by (auto dest: inj_onD)
        with ab(1) bx(2) show False by simp
      qed
      show ?thesis using dx dt disj by simp
    qed
    have app: "appendMissing (take ?k remaining) expired = expired @ take ?k remaining"
      using dis by (rule appendMissing_distinct)
    show ?thesis
    proof (cases "int (length remaining) > n")
      case True
      then show ?thesis
        using Some n0 app by (simp add: snapshotsToDelete_def ex' rem Let_def)
    next
      case False
      then have "?k = 0" using n0 by simp
      then show ?thesis
        using Some False by (simp add: snapshotsToDelete_def ex' rem Let_def)
    qed
  qed
qed

lemma selectSnapshots_filter:
  "selectSnapshots S vm objs = filter (belongsToScheduleVM S vm) (snapshotsOf objs)"
  by (induction objs) (simp_all add: snapshotsOf_def split: storeObj.splits)

lemma selected_names_distinct:
  assumes "storeKeysUnique objs"
  shows "distinct (map snapName (selectSnapshots S vm objs))"
proof -
  let ?xs = "selectSnapshots S vm objs"
  have k: "distinct (map snapKey ?xs)"
    using assms
    by (simp add: selectSnapshots_filter storeKeysUnique_def snapKey_def [abs_def] distinct_map_filter)
  have ns: "\<And>s. s \<in> set ?xs \<Longrightarrow> metaNamespace (snapMeta s) = metaNamespace (schMeta S)"
    by (auto simp: selectSnapshots_filter belongsToScheduleVM_def split: if_splits)
  have "inj_on snapName (set ?xs)"
  proof (rule inj_onI)
    fix a b
    assume ab: "a \<in> set ?xs" "b \<in> set ?xs" "snapName a = snapName b"
    then have "snapKey a = snapKey b"
      using ns [of a] ns [of b] by (simp add: snapKey_def snapName_def)
    moreover have "inj_on snapKey (set ?xs)"
      using k by (simp add: distinct_map)
    ultimately show "a = b" using ab(1,2) by (auto dest: inj_onD)
  qed
  moreover have "distinct ?xs"
    using k by (simp add: distinct_map)
  ultimately show ?thesis by (simp add: distinct_map)
qed

lemma sorted_names_distinct:
  assumes "sortsByCreation srt" and "distinct (map snapName xs)"
  shows "distinct (map snapName (srt xs))"
proof -
  have "mset (srt xs) = mset xs"
    using assms(1) by (simp add: sortsByCreation_def)
  then have "mset (map snapName (srt xs)) = mset (map snapName xs)"
    by simp
  then show ?thesis
    using assms(2) by (metis mset_eq_imp_distinct_iff)
qed

lemma sorted_by_creation:
  assumes "sortsByCreation srt"
  shows "sorted (map snapCreated (srt xs))"
proof -
  have "sorted_wrt (\<lambda>a b. \<not> creationBefore b a) (srt xs)"
    using assms by (simp add: sortsByCreation_def)
  then have "sorted_wrt (\<lambda>a b. snapCreated a \<le> snapCreated b) (srt xs)"
    by (simp add: creationBefore_def snapCreated_def not_less)
  then show ?thesis
    by (simp add: sorted_wrt_map)
qed

lemma sorts_empty: "sortsByCreation srt \<Longrightarrow> srt [] = []"
  by (metis mset_zero_iff sortsByCreation_def)

lemma sorts_length: "sortsByCreation srt \<Longrightarrow> length (srt xs) = length xs"
  by (metis size_mset sortsByCreation_def)

lemma deleteLoop_calls:
  "\<exists>ys. trace (deleteLoop e ds w) = trace w @ ys \<and> deleteCalls ys = map snapKey ds
        \<and> createdSnapshots ys = []"
proof (induction ds arbitrary: w)
  case Nil
  show ?case by simp
next
  case (Cons d ds)
  have step: "\<exists>ys. trace (deleteLoop e ds w') = trace w @ ys \<and> deleteCalls ys = map snapKey (d # ds)
                  \<and> createdSnapshots ys = []"
    if "trace w' = trace w @ zs" "deleteCalls zs = [snapKey d]" "createdSnapshots zs = []" for w' zs
  proof -
    from Cons.IH [of w'] obtain ys where ys: "trace (deleteLoop e ds w') = trace w' @ ys"
        "deleteCalls ys = map snapKey ds" "createdSnapshots ys = []"
      by blast
    have "trace (deleteLoop e ds w') = trace w @ (zs @ ys)"
      using ys(1) that(1) by simp
    moreover have "deleteCalls (zs @ ys) = map snapKey (d # ds)"
      using ys(2) that(2) by simp
    moreover have "createdSnapshots (zs @ ys) = []"
      using ys(3) that(3) by simp
    ultimately show ?thesis by blast
  qed
  let ?ns = "metaNamespace (snapMeta d)"
  let ?n = "metaName (snapMeta d)"
  let ?err = "deleteSnapshot e (trace w) ?ns ?n"
  let ?ev = "RecordEvent EventTypeNormal scheduleDeleteSnapshotEvent
               (''Deleted snapshot '' @ ?n @ '' due to retention policy'')"
  have a: "\<exists>ys. trace (deleteLoop e ds (emit (DeleteSnapshot ?ns ?n ?err) w)) = trace w @ ys
               \<and> deleteCalls ys = map snapKey (d # ds) \<and> createdSnapshots ys = []"
    by (rule step [of _ "[DeleteSnapshot ?ns ?n ?err]"]) (simp_all add: snapKey_def)
  have b: "\<exists>ys. trace (deleteLoop e ds (emit ?ev (emit (DeleteSnapshot ?ns ?n ?err) w))) = trace w @ ys
               \<and> deleteCalls ys = map snapKey (d # ds) \<and> createdSnapshots ys = []"
    by (rule step [of _ "[DeleteSnapshot ?ns ?n ?err, ?ev]"]) (simp_all add: snapKey_def)
  show ?case
  proof (cases ?err)
    case None
    with b show ?thesis by (simp add: Let_def)
  next
    case (Some x)
    with a b show ?thesis by (cases "IsNotFound x") (simp_all add: Let_def)
  qed
qed


lemma applyRetentionForVM_calls:
  assumes srt: "sortsByCreation (sortSlice e)"
      and uniq: "storeKeysUnique (snapshotList e)"
      and ret: "specRetention (schSpec S) = Some r"
      and nonneg: "\<And>n. retMaxCount r = Some n \<Longrightarrow> 0 \<le> n"
      and snaps: "snaps = sortSlice e (fst (getScheduledSnapshotsForVM e S vm w))"
      and expired: "expired = (case retExpires r of
                                 None \<Rightarrow> []
                               | Some limit \<Rightarrow> filter (\<lambda>s. timeSub (clock e (ticks w)) (snapCreated s) > limit) snaps)"
      and remaining: "remaining = filter (\<lambda>s. s \<notin> set expired) snaps"
      and oldest: "oldest = (case retMaxCount r of
                               None \<Rightarrow> []
                             | Some n \<Rightarrow> take (length remaining - nat n) remaining)"
  shows "fst (applyRetentionForVM e S vm w) = Returned None"
    and "deleteCalls (newActions w (snd (applyRetentionForVM e S vm w))) = map snapKey (expired @ oldest)"
proof -
  let ?sel = "selectSnapshots S vm (snapshotList e)"
  have sel: "fst (getScheduledSnapshotsForVM e S vm w) = ?sel"
    by (simp add: getScheduledSnapshotsForVM_def)
  have dn: "distinct (map snapName snaps)"
    unfolding snaps sel
    by (rule sorted_names_distinct [OF srt selected_names_distinct [OF uniq]])
  have del: "snapshotsToDelete r (clock e (ticks w)) snaps = Returned (expired @ oldest)"
    unfolding oldest
    by (rule snapshotsToDelete_distinct [OF dn nonneg expired remaining])
  have both: "fst (applyRetentionForVM e S vm w) = Returned None
              \<and> deleteCalls (newActions w (snd (applyRetentionForVM e S vm w))) = map snapKey (expired @ oldest)"
  proof (cases "?sel = []")
    case True
    then have "snaps = []"
      using snaps sel sorts_empty [OF srt] by simp
    then have "expired @ oldest = []"
      using expired remaining oldest by (simp split: option.splits)
    then show ?thesis
      using True
      by (simp add: applyRetentionForVM_def getScheduledSnapshotsForVM_def newActions_def)
  next
    case False
    let ?w2 = "(emit ListSnapshots w)\<lparr>ticks := Suc (ticks w)\<rparr>"
    have eq: "applyRetentionForVM e S vm w = (Returned None, deleteLoop e (expired @ oldest) ?w2)"
      using False ret del
      by (simp add: applyRetentionForVM_def getScheduledSnapshotsForVM_def timeNow_def Let_def
          snaps [symmetric, unfolded sel])
    from deleteLoop_calls [of e "expired @ oldest" ?w2]
    obtain ys where ys: "trace (deleteLoop e (expired @ oldest) ?w2) = trace ?w2 @ ys"
        "deleteCalls ys = map snapKey (expired @ oldest)"
      by blast
    show ?thesis
      using ys by (simp add: eq newActions_def)
  qed
  from both show "fst (applyRetentionForVM e S vm w) = Returned None" by simp
  from both show "deleteCalls (newActions w (snd (applyRetentionForVM e S vm w))) = map snapKey (expired @ oldest)"
    by simp
qed


lemma insertLess_mset: "mset (insertLess lt x pre) = add_mset x (mset pre)"
  by (induction pre) simp_all

lemma insertLess_sorted:
  assumes "sorted_wrt (\<lambda>a b. \<not> creationBefore a b) pre"
  shows "sorted_wrt (\<lambda>a b. \<not> creationBefore a b) (insertLess creationBefore x pre)"
  using assms
proof (induction pre)
  case Nil
  then show ?case by simp
next
  case (Cons y ys)
  have s: "set (insertLess creationBefore x ys) = insert x (set ys)"
    using insertLess_mset [of creationBefore x ys] by (metis mset_eq_setD set_mset_add_mset_insert set_mset_mset)
  have "\<not> creationBefore y x" if "creationBefore x y"
    using that by (simp add: creationBefore_def)
  moreover have "\<not> creationBefore x z" if "\<not> creationBefore x y" and "\<not> creationBefore y z" for z
    using that by (simp add: creationBefore_def)
  ultimately show ?case
    using Cons by (auto simp: s)
qed

lemma foldl_insertLess:
  "sorted_wrt (\<lambda>a b. \<not> creationBefore a b) pre \<Longrightarrow>
   mset (foldl (\<lambda>pre x. insertLess creationBefore x pre) pre xs) = mset pre + mset xs
   \<and> sorted_wrt (\<lambda>a b. \<not> creationBefore a b) (foldl (\<lambda>pre x. insertLess creationBefore x pre) pre xs)"
proof (induction xs arbitrary: pre)
  case Nil
  then show ?case by simp
next
  case (Cons x xs)
  from Cons.IH [OF insertLess_sorted [OF Cons.prems, of x]]
  show ?case by (simp add: insertLess_mset)
qed

lemma insertionSortLess_sortsByCreation: "sortsByCreation (insertionSortLess creationBefore)"
  unfolding sortsByCreation_def insertionSortLess_def
  using foldl_insertLess [of "[]"] by (simp add: sorted_wrt_rev)

lemma exFive_sorted:
  "insertionSortLess creationBefore (selectSnapshots (exWithRetention r) exVM exFive) =
     [exSnapshotAt ''t1'' (exNow - 180 * minute), exSnapshotAt ''t2'' (exNow - 120 * minute),
      exSnapshotAt ''t3'' (exNow - 30 * minute), exSnapshotAt ''t4'' (exNow - 20 * minute),
      exSnapshotAt ''t5'' (exNow - 10 * minute)]"
  by (simp add: exFive_def exSnapshotAt_def exWithRetention_def exSchedule_def exVM_def emptyMeta_def
      belongsToScheduleVM_def goIndex_def scheduleNameLabel_def snapshotSourceNameLabel_def
      insertionSortLess_def creationBefore_def minute_def second_def exNow_def)

lemma exFive_unique: "storeKeysUnique exFive"
  by (simp add: storeKeysUnique_def snapshotsOf_def exFive_def exSnapshotAt_def emptyMeta_def)


section \<open>Retention: the order of the store and equal creation times\<close>

lemma snapshotsOf_mset:
  assumes "mset xs = mset ys"
  shows "mset (snapshotsOf xs) = mset (snapshotsOf ys)"
proof -
  have "mset (snapshotsOf zs) =
          sum_mset (image_mset (\<lambda>obj. mset (case obj of SnapshotObj s \<Rightarrow> [s] | _ \<Rightarrow> [])) (mset zs))" for zs
    by (induction zs) (simp_all add: snapshotsOf_def)
  then show ?thesis using assms by simp
qed

lemma selectSnapshots_mset:
  assumes "mset xs = mset ys"
  shows "mset (selectSnapshots S vm xs) = mset (selectSnapshots S vm ys)"
  by (simp add: selectSnapshots_filter snapshotsOf_mset [OF assms])

lemma sorted_distinct_keys_unique:
  assumes sx: "sorted (map f xs)" and dx: "distinct (map f xs)"
      and sy: "sorted (map f ys)" and m: "mset xs = mset ys"
  shows "xs = ys"
proof -
  have mm: "mset (map f xs) = mset (map f ys)"
    using m by (metis mset_map)
  have dy: "distinct (map f ys)"
    using dx mm by (metis mset_eq_imp_distinct_iff)
  have "set (map f xs) = set (map f ys)"
    using mm by (rule mset_eq_setD)
  then have eq: "map f xs = map f ys"
    using sx dx sy dy by (rule sorted_distinct_set_unique [rotated 4])
  have "set ys = set xs"
    using m by (metis mset_eq_setD)
  moreover have "inj_on f (set xs)"
    using dx by (simp add: distinct_map)
  ultimately have "inj_on f (set xs \<union> set ys)" by simp
  with eq show ?thesis by (rule map_inj_on)
qed

lemma applyRetentionForVM_plan:
  assumes sel: "sel = selectSnapshots S vm (snapshotList e)"
  shows "fst (applyRetentionForVM e S vm w) =
           (if sel = [] then Returned None
            else case specRetention (schSpec S) of
                   None \<Rightarrow> Panicked ''nil pointer dereference''
                 | Some r \<Rightarrow>
                     (case snapshotsToDelete r (clock e (ticks w)) (sortSlice e sel) of
                        Panicked m \<Rightarrow> Panicked m
                      | Returned ds \<Rightarrow> Returned None))"
    and "deleteCalls (newActions w (snd (applyRetentionForVM e S vm w))) =
           (if sel = [] then []
            else case specRetention (schSpec S) of
                   None \<Rightarrow> []
                 | Some r \<Rightarrow>
                     (case snapshotsToDelete r (clock e (ticks w)) (sortSlice e sel) of
                        Panicked m \<Rightarrow> []
                      | Returned ds \<Rightarrow> map snapKey ds))"
proof -
  let ?w2 = "(emit ListSnapshots w)\<lparr>ticks := Suc (ticks w)\<rparr>"
  have calls: "deleteCalls (newActions w (deleteLoop e ds ?w2)) = map snapKey ds" for ds
  proof -
    from deleteLoop_calls [of e ds ?w2]
    obtain ys where "trace (deleteLoop e ds ?w2) = trace ?w2 @ ys" "deleteCalls ys = map snapKey ds"
      by blast
    then show ?thesis by (simp add: newActions_def)
  qed
  show "fst (applyRetentionForVM e S vm w) =
           (if sel = [] then Returned None
            else case specRetention (schSpec S) of
                   None \<Rightarrow> Panicked ''nil pointer dereference''
                 | Some r \<Rightarrow>
                     (case snapshotsToDelete r (clock e (ticks w)) (sortSlice e sel) of
                        Panicked m \<Rightarrow> Panicked m
                      | Returned ds \<Rightarrow> Returned None))"
    by (simp add: applyRetentionForVM_def getScheduledSnapshotsForVM_def timeNow_def Let_def sel
        split: option.splits outcome.splits)
  show "deleteCalls (newActions w (snd (applyRetentionForVM e S vm w))) =
           (if sel = [] then []
            else case specRetention (schSpec S) of
                   None \<Rightarrow> []
                 | Some r \<Rightarrow>
                     (case snapshotsToDelete r (clock e (ticks w)) (sortSlice e sel) of
                        Panicked m \<Rightarrow> []
                      | Returned ds \<Rightarrow> map snapKey ds))"
    using calls
    by (simp add: applyRetentionForVM_def getScheduledSnapshotsForVM_def timeNow_def Let_def sel
        newActions_def split: option.splits outcome.splits)
qed

lemma exFive_calls:
  "deleteCalls (newActions w0 (snd (applyRetentionForVM exEnvFive (exWithRetention exKeepTwo) exVM w0)))
     = [(''default'', ''t1''), (''default'', ''t2''), (''default'', ''t3'')]"
proof -
  have srt: "sortsByCreation (sortSlice exEnvFive)"
    by (simp add: exEnvFive_def exEnv_def insertionSortLess_sortsByCreation)
  have uniq: "storeKeysUnique (snapshotList exEnvFive)"
    by (simp add: exEnvFive_def exFive_unique)
  have ret: "specRetention (schSpec (exWithRetention exKeepTwo)) = Some exKeepTwo"
    by (simp add: exWithRetention_def)
  have nonneg: "\<And>n. retMaxCount exKeepTwo = Some n \<Longrightarrow> 0 \<le> n"
    by (simp add: exKeepTwo_def)
  have snaps: "sortSlice exEnvFive (fst (getScheduledSnapshotsForVM exEnvFive (exWithRetention exKeepTwo) exVM w0)) =
     [exSnapshotAt ''t1'' (exNow - 180 * minute), exSnapshotAt ''t2'' (exNow - 120 * minute),
      exSnapshotAt ''t3'' (exNow - 30 * minute), exSnapshotAt ''t4'' (exNow - 20 * minute),
      exSnapshotAt ''t5'' (exNow - 10 * minute)]"
    by (simp add: getScheduledSnapshotsForVM_def exEnvFive_def exEnv_def exFive_sorted)
  have clk: "clock exEnvFive (ticks w0) = exNow"
    by (simp add: exEnvFive_def exEnv_def)
  show ?thesis
    using applyRetentionForVM_calls(2)
            [where e = exEnvFive and S = "exWithRetention exKeepTwo" and vm = exVM and w = w0,
             OF srt uniq ret nonneg refl refl refl refl]
    unfolding snaps clk
    by (simp add: exKeepTwo_def snapCreated_def snapKey_def exSnapshotAt_def emptyMeta_def timeSub_def
        minute_def second_def exNow_def minDuration_def maxDuration_def)
qed

lemma exFive_creation_distinct:
  "distinct (map snapCreated (fst (getScheduledSnapshotsForVM exEnvFive (exWithRetention r) exVM w0)))"
  by (simp add: getScheduledSnapshotsForVM_def exEnvFive_def exEnv_def
      exFive_def exSnapshotAt_def exWithRetention_def exSchedule_def exVM_def emptyMeta_def
      belongsToScheduleVM_def goIndex_def scheduleNameLabel_def snapshotSourceNameLabel_def
      snapCreated_def minute_def second_def exNow_def)

text \<open>
  C4, the claim as it is written, fails: \<open>snap-a\<close> and \<open>snap-b\<close> have the same creation time,
  one snapshot is to be kept, and the two stores hold the same two snapshots. When the
  store lists \<open>snap-a\<close> first, \<open>snap-a\<close> is deleted; when it lists \<open>snap-b\<close> first, \<open>snap-b\<close>
  is deleted, although \<open>snap-a\<close> is the first by name.
\<close>

theorem retention_has_no_name_tie_break_counterexample:
  "mset (snapshotList exEnvTwinsAB) = mset (snapshotList exEnvTwinsBA)
   \<and> snapCreated exTwinA = snapCreated exTwinB
   \<and> deleteCalls (newActions w0 (snd (applyRetentionForVM exEnvTwinsAB (exWithRetention exKeepOne) exVM w0)))
       = [(''default'', ''snap-a'')]
   \<and> deleteCalls (newActions w0 (snd (applyRetentionForVM exEnvTwinsBA (exWithRetention exKeepOne) exVM w0)))
       = [(''default'', ''snap-b'')]"
proof -
  have a: "selectSnapshots (exWithRetention exKeepOne) exVM (snapshotList exEnvTwinsAB) = [exTwinA, exTwinB]"
    by (simp add: exEnvTwinsAB_def exTwinA_def exTwinB_def exSnapshotAt_def exWithRetention_def
        exSchedule_def exVM_def emptyMeta_def belongsToScheduleVM_def goIndex_def
        scheduleNameLabel_def snapshotSourceNameLabel_def)
  have b: "selectSnapshots (exWithRetention exKeepOne) exVM (snapshotList exEnvTwinsBA) = [exTwinB, exTwinA]"
    by (simp add: exEnvTwinsBA_def exTwinA_def exTwinB_def exSnapshotAt_def exWithRetention_def
        exSchedule_def exVM_def emptyMeta_def belongsToScheduleVM_def goIndex_def
        scheduleNameLabel_def snapshotSourceNameLabel_def)
  have sa: "sortSlice exEnvTwinsAB [exTwinA, exTwinB] = [exTwinA, exTwinB]"
    by (simp add: exEnvTwinsAB_def exEnv_def insertionSortLess_def creationBefore_def
        exTwinA_def exTwinB_def exSnapshotAt_def)
  have sb: "sortSlice exEnvTwinsBA [exTwinB, exTwinA] = [exTwinB, exTwinA]"
    by (simp add: exEnvTwinsBA_def exEnv_def insertionSortLess_def creationBefore_def
        exTwinA_def exTwinB_def exSnapshotAt_def)
  have ret: "specRetention (schSpec (exWithRetention exKeepOne)) = Some exKeepOne"
    by (simp add: exWithRetention_def)
  have da: "snapshotsToDelete exKeepOne now [exTwinA, exTwinB] = Returned [exTwinA]" for now
    by (simp add: snapshotsToDelete_def exKeepOne_def containsName_def)
  have db: "snapshotsToDelete exKeepOne now [exTwinB, exTwinA] = Returned [exTwinB]" for now
    by (simp add: snapshotsToDelete_def exKeepOne_def containsName_def)
  have ka: "snapKey exTwinA = (''default'', ''snap-a'')"
    by (simp add: snapKey_def exTwinA_def exSnapshotAt_def)
  have kb: "snapKey exTwinB = (''default'', ''snap-b'')"
    by (simp add: snapKey_def exTwinB_def exSnapshotAt_def)
  have 1: "mset (snapshotList exEnvTwinsAB) = mset (snapshotList exEnvTwinsBA)"
    by (simp add: exEnvTwinsAB_def exEnvTwinsBA_def)
  have 2: "snapCreated exTwinA = snapCreated exTwinB"
    by (simp add: snapCreated_def exTwinA_def exTwinB_def exSnapshotAt_def)
  have 3: "deleteCalls (newActions w0 (snd (applyRetentionForVM exEnvTwinsAB (exWithRetention exKeepOne) exVM w0)))
       = [(''default'', ''snap-a'')]"
    unfolding applyRetentionForVM_plan(2) [OF refl] a sa ret
    by (simp add: da ka)
  have 4: "deleteCalls (newActions w0 (snd (applyRetentionForVM exEnvTwinsBA (exWithRetention exKeepOne) exVM w0)))
       = [(''default'', ''snap-b'')]"
    unfolding applyRetentionForVM_plan(2) [OF refl] b sb ret
    by (simp add: db kb)
  from 1 2 3 4 show ?thesis by simp
qed

text \<open>
  C4, amended. When the snapshots selected for the machine have pairwise distinct creation
  times, retention is a function of the set of snapshots, the retention parameters and the
  clock: for two stores that hold the same objects in any two orders, and any two results
  that \<open>sort.Slice\<close> may give, the sorted lists are the same, the pass ends the same way and
  the same delete calls are issued in the same order. (Snapshots with equal creation times
  are not ordered by name.)
\<close>

theorem retention_is_deterministic_for_distinct_creation_times:
  assumes srt1: "sortsByCreation (sortSlice e1)"
      and srt2: "sortsByCreation (sortSlice e2)"
      and perm: "mset (snapshotList e1) = mset (snapshotList e2)"
      and dist: "distinct (map snapCreated (fst (getScheduledSnapshotsForVM e1 S vm w1)))"
      and clk: "clock e1 (ticks w1) = clock e2 (ticks w2)"
  shows "sortSlice e1 (fst (getScheduledSnapshotsForVM e1 S vm w1))
           = sortSlice e2 (fst (getScheduledSnapshotsForVM e2 S vm w2))
         \<and> fst (applyRetentionForVM e1 S vm w1) = fst (applyRetentionForVM e2 S vm w2)
         \<and> deleteCalls (newActions w1 (snd (applyRetentionForVM e1 S vm w1)))
             = deleteCalls (newActions w2 (snd (applyRetentionForVM e2 S vm w2)))"
proof -
  let ?sel1 = "selectSnapshots S vm (snapshotList e1)"
  let ?sel2 = "selectSnapshots S vm (snapshotList e2)"
  have m: "mset ?sel1 = mset ?sel2"
    by (rule selectSnapshots_mset [OF perm])
  have ms: "mset (sortSlice e1 ?sel1) = mset (sortSlice e2 ?sel2)"
    using m srt1 srt2 by (simp add: sortsByCreation_def)
  have "mset (map snapCreated (sortSlice e1 ?sel1)) = mset (map snapCreated ?sel1)"
    using srt1 by (simp add: sortsByCreation_def)
  then have d: "distinct (map snapCreated (sortSlice e1 ?sel1))"
    using dist by (metis fst_conv getScheduledSnapshotsForVM_def mset_eq_imp_distinct_iff)
  have srt: "sortSlice e1 ?sel1 = sortSlice e2 ?sel2"
    by (rule sorted_distinct_keys_unique
          [OF sorted_by_creation [OF srt1] d sorted_by_creation [OF srt2] ms])
  have e: "?sel1 = [] \<longleftrightarrow> ?sel2 = []"
    using m by (metis mset_zero_iff)
  show ?thesis
    unfolding applyRetentionForVM_plan [OF refl]
    by (simp add: getScheduledSnapshotsForVM_def srt e clk split: option.splits)
qed

theorem retention_is_deterministic_for_distinct_creation_times_witness:
  "sortsByCreation (sortSlice exEnvFive)
   \<and> sortsByCreation (sortSlice (exEnvFive\<lparr>snapshotList := rev exFive\<rparr>))
   \<and> mset (snapshotList exEnvFive) = mset (snapshotList (exEnvFive\<lparr>snapshotList := rev exFive\<rparr>))
   \<and> distinct (map snapCreated (fst (getScheduledSnapshotsForVM exEnvFive (exWithRetention exKeepTwo) exVM w0)))
   \<and> clock exEnvFive (ticks w0) = clock (exEnvFive\<lparr>snapshotList := rev exFive\<rparr>) (ticks w0)
   \<and> deleteCalls (newActions w0 (snd (applyRetentionForVM (exEnvFive\<lparr>snapshotList := rev exFive\<rparr>)
                                          (exWithRetention exKeepTwo) exVM w0)))
       = [(''default'', ''t1''), (''default'', ''t2''), (''default'', ''t3'')]"
proof -
  have srt1: "sortsByCreation (sortSlice exEnvFive)"
    by (simp add: exEnvFive_def exEnv_def insertionSortLess_sortsByCreation)
  have srt2: "sortsByCreation (sortSlice (exEnvFive\<lparr>snapshotList := rev exFive\<rparr>))"
    by (simp add: exEnvFive_def exEnv_def insertionSortLess_sortsByCreation)
  have perm: "mset (snapshotList exEnvFive) = mset (snapshotList (exEnvFive\<lparr>snapshotList := rev exFive\<rparr>))"
    by (simp add: exEnvFive_def)
  have clk: "clock exEnvFive (ticks w0) = clock (exEnvFive\<lparr>snapshotList := rev exFive\<rparr>) (ticks w0)"
    by simp
  show ?thesis
    using retention_is_deterministic_for_distinct_creation_times
            [where ?e1.0 = exEnvFive and ?e2.0 = "exEnvFive\<lparr>snapshotList := rev exFive\<rparr>"
               and S = "exWithRetention exKeepTwo" and vm = exVM and ?w1.0 = w0 and ?w2.0 = w0,
             OF srt1 srt2 perm exFive_creation_distinct clk]
          srt1 srt2 perm exFive_creation_distinct [of exKeepTwo] exFive_calls
    by simp
qed

end
